theory Spec2Isabelle
  imports Complex_Main "HOL-Library.AList"
begin

section \<open>JavaScript numbers\<close>

text \<open>
  A JavaScript number is a finite value or one of the three special values of IEEE 754.
  A finite value is the real number it denotes. Every quantity of the leave form is an
  integer or a half-integer far below \<open>2 ^ 53\<close>, where the arithmetic of doubles is exact;
  the rounding of doubles, needed for the goal progress, is defined further down.
\<close>

datatype number = Fin real | PosInf | NegInf | NaN

text \<open>The relational operators \<open><\<close> and \<open>>\<close>: false whenever an operand is \<open>NaN\<close>.\<close>

fun lt :: "number \<Rightarrow> number \<Rightarrow> bool" where
  "lt NaN _ = False"
| "lt _ NaN = False"
| "lt (Fin a) (Fin b) = (a < b)"
| "lt PosInf _ = False"
| "lt _ PosInf = True"
| "lt NegInf (Fin b) = True"
| "lt _ NegInf = False"

definition gt :: "number \<Rightarrow> number \<Rightarrow> bool" where
  "gt a b = lt b a"

section \<open>Leave request form (src/unnamed/part_001)\<close>

text \<open>The \<open>formData\<close> state of the \<open>LeaveRequestForm\<close> component.\<close>

record formData =
  policyId :: string
  startDate :: string
  endDate :: string
  startTime :: string
  endTime :: string
  reason :: string
  emergencyContact :: string

record LeavePolicy =
  policy_id :: string
  policy_name :: string
  balanceAvailable :: real
  minimumNotice :: real
  requiresApproval :: bool
  allowNegativeBalance :: bool

text \<open>
  The constructor \<open>new Date(s)\<close> belongs to the JavaScript runtime, so it is a parameter
  \<open>Date\<close> of the model: \<open>Date s = Some t\<close> when the string parses to the time value
  \<open>t\<close> (milliseconds since the epoch), and \<open>None\<close> for an Invalid Date, whose time value
  is \<open>NaN\<close>. A comparison with \<open>NaN\<close> is false and arithmetic on \<open>NaN\<close> gives \<open>NaN\<close>.
\<close>

type_synonym dateParser = "string \<Rightarrow> int option"

text \<open>
  \<open>calculateDays\<close> ends in \<open>setCalculatedDays(v)\<close>; the model returns \<open>v\<close>, the new value
  of the state variable \<open>calculatedDays\<close>.
\<close>

definition calculateDays :: "dateParser \<Rightarrow> formData \<Rightarrow> number" where
  "calculateDays Date fd =
     (case (Date (startDate fd), Date (endDate fd)) of
        (Some start, Some end) \<Rightarrow>
          if start > end then Fin 0
          else
            let diffTime = \<bar>end - start\<bar>;
                diffDays = real_of_int \<lceil>real_of_int diffTime / (1000 * 60 * 60 * 24)\<rceil> + 1
            in if startTime fd = ''half_day'' \<and> endTime fd = ''half_day'' then
                 (if diffDays = 1 then Fin 0.5 else Fin (diffDays - 0.5))
               else if startTime fd = ''half_day'' \<or> endTime fd = ''half_day'' then
                 Fin (diffDays - 0.5)
               else Fin diffDays
      | _ \<Rightarrow> NaN)"

text \<open>
  \<open>String.prototype.trim\<close>, on the ASCII white space and line terminators (the Unicode
  space separators beyond ASCII are not modelled).
\<close>

definition isWhiteSpace :: "char \<Rightarrow> bool" where
  "isWhiteSpace c = (c \<in> set [CHR '' '', CHR 0x09, CHR 0x0A, CHR 0x0B, CHR 0x0C, CHR 0x0D])"

definition trim :: "string \<Rightarrow> string" where
  "trim s = rev (dropWhile isWhiteSpace (rev (dropWhile isWhiteSpace s)))"

text \<open>The time value of a \<open>Date\<close> as a number: \<open>getTime()\<close>.\<close>

definition getTime :: "int option \<Rightarrow> number" where
  "getTime d = (case d of Some t \<Rightarrow> Fin (real_of_int t) | None \<Rightarrow> NaN)"

text \<open>
  \<open>validateForm\<close> builds the object \<open>newErrors\<close>, stores it with \<open>setErrors\<close> and returns
  whether it has no key. The object is an association list in insertion order; an
  assignment to an existing key replaces its value (\<open>AList.update\<close>). The model returns
  the stored object together with the boolean. Besides \<open>Date\<close>, the current time \<open>now\<close>
  (the time value of \<open>new Date()\<close>) and the conversion \<open>str\<close> of a number to a string in a
  template literal are parameters. \<open>calculatedDays\<close> is the state variable that
  \<open>calculateDays\<close> sets.
\<close>

type_synonym errors = "(string \<times> string) list"

definition validateForm ::
  "dateParser \<Rightarrow> int \<Rightarrow> (number \<Rightarrow> string) \<Rightarrow> formData \<Rightarrow> LeavePolicy option \<Rightarrow> number
     \<Rightarrow> errors \<times> bool" where
  "validateForm Date now str fd selectedPolicy calculatedDays =
     (let e0 = [];
          e1 = (if policyId fd = [] then AList.update ''policyId'' ''Please select a leave type'' e0
                else e0);
          e2 = (if startDate fd = [] then AList.update ''startDate'' ''Start date is required'' e1
                else e1);
          e3 = (if endDate fd = [] then AList.update ''endDate'' ''End date is required'' e2
                else e2);
          e4 = (if startDate fd \<noteq> [] \<and> endDate fd \<noteq> [] \<and>
                   gt (getTime (Date (startDate fd))) (getTime (Date (endDate fd)))
                then AList.update ''endDate'' ''End date must be after start date'' e3
                else e3);
          e5 = (if trim (reason fd) = [] then AList.update ''reason'' ''Reason is required'' e4
                else e4);
          e6 = (case selectedPolicy of
                  Some p \<Rightarrow>
                    if startDate fd \<noteq> [] then
                      let hoursNotice =
                            (case Date (startDate fd) of
                               Some t \<Rightarrow> Fin ((real_of_int t - real_of_int now) / (1000 * 60 * 60))
                             | None \<Rightarrow> NaN)
                      in if lt hoursNotice (Fin (minimumNotice p)) then
                           AList.update ''startDate''
                             (''Minimum '' @ str (Fin (minimumNotice p)) @ '' hours notice required'') e5
                         else e5
                    else e5
                | None \<Rightarrow> e5);
          e7 = (case selectedPolicy of
                  Some p \<Rightarrow>
                    if gt calculatedDays (Fin 0) then
                      if \<not> allowNegativeBalance p \<and> gt calculatedDays (Fin (balanceAvailable p)) then
                        AList.update ''general''
                          (''Insufficient leave balance. Available: '' @ str (Fin (balanceAvailable p))
                             @ '' days, Requested: '' @ str calculatedDays @ '' days'') e6
                      else e6
                    else e6
                | None \<Rightarrow> e6)
      in (e7, e7 = []))"

text \<open>
  \<open>handleSubmit\<close> returns early when \<open>validateForm\<close> fails; otherwise it hands the request
  to the callback \<open>onSubmit\<close>. The model returns the errors stored by \<open>validateForm\<close> and
  the request handed over, if any. The fields of the request, in order: \<open>employeeId\<close>,
  \<open>policyId\<close>, \<open>startDate\<close>, \<open>endDate\<close>, \<open>startTime\<close>, \<open>endTime\<close>, \<open>reason\<close>,
  \<open>emergencyContact\<close> (absent when empty) and \<open>daysRequested\<close>.
\<close>

datatype requestData =
  RequestData string string string string string string string "string option" number

definition handleSubmit ::
  "dateParser \<Rightarrow> int \<Rightarrow> (number \<Rightarrow> string) \<Rightarrow> string \<Rightarrow> formData \<Rightarrow> LeavePolicy option
     \<Rightarrow> number \<Rightarrow> errors \<times> requestData option" where
  "handleSubmit Date now str employeeId fd selectedPolicy calculatedDays =
     (case validateForm Date now str fd selectedPolicy calculatedDays of
        (errs, ok) \<Rightarrow>
          if \<not> ok then (errs, None)
          else (errs, Some (RequestData employeeId (policyId fd) (startDate fd) (endDate fd)
                  (startTime fd) (endTime fd) (reason fd)
                  (if emergencyContact fd = [] then None else Some (emergencyContact fd))
                  calculatedDays)))"

text \<open>
  A date input holds \<open>YYYY-MM-DD\<close>, which \<open>new Date\<close> reads as midnight UTC of that day:
  the time value of day number \<open>d\<close> (days since 1970-01-01).
\<close>

definition msPerDay :: int where
  "msPerDay = 1000 * 60 * 60 * 24"

definition midnightUTC :: "int \<Rightarrow> int" where
  "midnightUTC d = msPerDay * d"

text \<open>A runtime for the examples: it knows two dates of March 2025.\<close>

definition exampleDate :: dateParser where
  "exampleDate s =
     (if s = ''2025-03-10'' then Some (midnightUTC 20157)
      else if s = ''2025-03-12'' then Some (midnightUTC 20159)
      else None)"

definition exampleForm :: "string \<Rightarrow> string \<Rightarrow> string \<Rightarrow> string \<Rightarrow> formData" where
  "exampleForm s e st et =
     \<lparr>policyId = ''annual'', startDate = s, endDate = e, startTime = st, endTime = et,
      reason = ''family visit'', emergencyContact = []\<rparr>"

text \<open>
  The specification's words for the days requested: the inclusive count \<open>n\<close> of days, minus one half
  for each boundary that is a half day, and one half for a single day with both boundaries
  half days.
\<close>

definition daysRequested_spec :: "int \<Rightarrow> bool \<Rightarrow> bool \<Rightarrow> real" where
  "daysRequested_spec n startHalf endHalf =
     (if n = 1 \<and> startHalf \<and> endHalf then 0.5
      else real_of_int n - 0.5 * (of_bool startHalf + of_bool endHalf))"

section \<open>Arithmetic of JavaScript numbers\<close>

text \<open>
  The operators \<open>+\<close>, \<open>*\<close> and \<open>/\<close> and the functions \<open>Math.min\<close> and \<open>Math.round\<close> on the
  special values, with the exact result where it is finite. Signed zeros are not
  distinguished: a division by zero takes the sign of the dividend.
\<close>

fun num_neg :: "number \<Rightarrow> number" where
  "num_neg (Fin a) = Fin (- a)"
| "num_neg PosInf = NegInf"
| "num_neg NegInf = PosInf"
| "num_neg NaN = NaN"

fun num_add :: "number \<Rightarrow> number \<Rightarrow> number" where
  "num_add NaN _ = NaN"
| "num_add _ NaN = NaN"
| "num_add (Fin a) (Fin b) = Fin (a + b)"
| "num_add (Fin a) y = y"
| "num_add x (Fin b) = x"
| "num_add PosInf PosInf = PosInf"
| "num_add NegInf NegInf = NegInf"
| "num_add PosInf NegInf = NaN"
| "num_add NegInf PosInf = NaN"

fun num_mul :: "number \<Rightarrow> number \<Rightarrow> number" where
  "num_mul NaN _ = NaN"
| "num_mul _ NaN = NaN"
| "num_mul (Fin a) (Fin b) = Fin (a * b)"
| "num_mul (Fin a) y = (if a = 0 then NaN else if 0 < a then y else num_neg y)"
| "num_mul x (Fin b) = (if b = 0 then NaN else if 0 < b then x else num_neg x)"
| "num_mul PosInf y = y"
| "num_mul NegInf y = num_neg y"

fun num_div :: "number \<Rightarrow> number \<Rightarrow> number" where
  "num_div NaN _ = NaN"
| "num_div _ NaN = NaN"
| "num_div (Fin a) (Fin b) =
     (if b = 0 then (if a = 0 then NaN else if 0 < a then PosInf else NegInf) else Fin (a / b))"
| "num_div (Fin a) y = Fin 0"
| "num_div x (Fin b) = (if 0 \<le> b then x else num_neg x)"
| "num_div x y = NaN"

fun Math_min :: "number \<Rightarrow> number \<Rightarrow> number" where
  "Math_min NaN _ = NaN"
| "Math_min _ NaN = NaN"
| "Math_min a b = (if lt a b then a else b)"

text \<open>\<open>Math.round\<close> rounds to the nearest integer, a half upwards.\<close>

fun Math_round :: "number \<Rightarrow> number" where
  "Math_round (Fin a) = Fin (real_of_int \<lfloor>a + 1 / 2\<rfloor>)"
| "Math_round x = x"

section \<open>The rounding of doubles\<close>

text \<open>
  A double has 53 significant bits and a binary exponent from \<open>-1022\<close> to \<open>1023\<close>
  (IEEE 754 binary64). \<open>log2floor n\<close> is the integer part of the binary logarithm of a
  positive \<open>n\<close>, and \<open>exponent x\<close> that of \<open>\<bar>x\<bar>\<close> for a real \<open>x\<close> other than 0: below 1
  it is minus the binary logarithm of \<open>1 / \<bar>x\<bar>\<close> rounded upwards.
\<close>

fun log2floor :: "nat \<Rightarrow> nat" where
  "log2floor n = (if n < 2 then 0 else Suc (log2floor (n div 2)))"

declare log2floor.simps [simp del]

definition exponent :: "real \<Rightarrow> int" where
  "exponent x =
     (if 1 \<le> \<bar>x\<bar> then int (log2floor (nat \<lfloor>\<bar>x\<bar>\<rfloor>))
      else
        let n = nat \<lceil>1 / \<bar>x\<bar>\<rceil>
        in if n \<le> 1 then 0 else - int (Suc (log2floor (n - 1))))"

text \<open>The power \<open>2 ^ k\<close> for an integer \<open>k\<close>.\<close>

definition pow2 :: "int \<Rightarrow> real" where
  "pow2 k = (if 0 \<le> k then 2 ^ nat k else 1 / 2 ^ nat (- k))"

text \<open>The nearest integer, and the even one of the two when they are equally near.\<close>

definition roundTiesToEven :: "real \<Rightarrow> int" where
  "roundTiesToEven m =
     (let f = \<lfloor>m\<rfloor>
      in if m - real_of_int f < 1 / 2 then f
         else if m - real_of_int f > 1 / 2 then f + 1
         else if even f then f else f + 1)"

text \<open>
  \<open>double x\<close> is the double nearest to the real \<open>x\<close> (round to nearest, ties to even).
  The spacing of the doubles around \<open>x\<close> is \<open>ulp\<close>: \<open>2 ^ (e - 52)\<close> for the exponent \<open>e\<close> of
  \<open>x\<close>, and \<open>2 ^ -1074\<close> for the subnormal numbers. A result of magnitude \<open>2 ^ 1024\<close> or
  more is an infinity.
\<close>

definition double :: "real \<Rightarrow> number" where
  "double x =
     (if x = 0 then Fin 0
      else
        let e = max (exponent x) (- 1022);
            ulp = pow2 (e - 52);
            r = real_of_int (roundTiesToEven (\<bar>x\<bar> / ulp)) * ulp
        in if pow2 1024 \<le> r then (if 0 < x then PosInf else NegInf)
           else Fin (if 0 < x then r else - r))"

text \<open>
  The operators of the runtime: the exact result, rounded to the nearest double. \<open>ge\<close> is
  the relational operator \<open>>=\<close>.
\<close>

fun rnd :: "number \<Rightarrow> number" where
  "rnd (Fin x) = double x"
| "rnd x = x"

definition dadd :: "number \<Rightarrow> number \<Rightarrow> number" where
  "dadd a b = rnd (num_add a b)"

definition dmul :: "number \<Rightarrow> number \<Rightarrow> number" where
  "dmul a b = rnd (num_mul a b)"

definition ddiv :: "number \<Rightarrow> number \<Rightarrow> number" where
  "ddiv a b = rnd (num_div a b)"

definition ge :: "number \<Rightarrow> number \<Rightarrow> bool" where
  "ge a b = (gt a b \<or> (a = b \<and> a \<noteq> NaN))"

section \<open>The database behind the services\<close>

text \<open>
  The services of \<open>performance.service.ts\<close> work on the tables of a relational database
  through the Prisma client \<open>this.prisma\<close>. The state is the record of the tables, each a
  list of rows in the order of the table. The Prisma schema is not among the sources: the
  columns are those that the modelled operations read or write, and a status is the string
  that the source writes. An absent (\<open>null\<close>) column is \<open>None\<close>.
\<close>

record ApprovalWorkflow =
  wf_id :: string
  wf_jobRequisitionId :: "string option"
  wf_offerId :: "string option"
  wf_status :: string
  wf_completedAt :: "int option"

record ApprovalStep =
  step_id :: string
  step_workflowId :: string
  step_approverId :: string
  step_level :: int
  step_status :: string
  step_required :: bool
  step_actionDate :: "int option"
  step_comments :: "string option"

record JobRequisition =
  req_id :: string
  req_status :: string
  req_approvedAt :: "int option"
  req_approvedById :: "string option"

text \<open>The stages of \<open>updateApplicationStageSchema\<close> (\<open>recruitment.schemas.ts\<close>).\<close>

datatype stage =
  applied | screening | phone_interview | technical_interview | onsite_interview
  | final_interview | background_check | offer_pending | offer_sent | hired | rejected
  | withdrawn

record Application =
  app_id :: string
  app_stage :: stage
  app_updatedById :: "string option"
  app_updatedAt :: "int option"

record ApplicationStageHistory =
  hist_applicationId :: string
  hist_stage :: stage
  hist_notes :: "string option"
  hist_rejectionReason :: "string option"
  hist_feedback :: "string option"
  hist_changedById :: string

record Goal =
  goal_id :: string
  progress_percentage :: number

record KeyResult =
  kr_id :: string
  kr_goal_id :: string
  target_value :: real
  current_value :: real
  is_binary :: bool
  weight :: real

record prisma =
  approvalWorkflow :: "ApprovalWorkflow list"
  approvalStep :: "ApprovalStep list"
  jobRequisition :: "JobRequisition list"
  application :: "Application list"
  applicationStageHistory :: "ApplicationStageHistory list"
  goal :: "Goal list"
  keyResult :: "KeyResult list"

text \<open>
  An error thrown by a service: \<open>new Error(message)\<close>, or the error of the client when an
  \<open>update\<close> finds no row to update.
\<close>

datatype error = Error string | RecordNotFound

text \<open>
  The queries of the client. \<open>findFirst\<close> returns the first row that satisfies the
  condition, in the order asked for (\<open>orderBy: { level: 'asc' }\<close> is a stable sort on the
  level), or \<open>null\<close>. \<open>update\<close> changes the row selected by its unique column and returns
  it, and throws when there is none.
\<close>

definition findFirst :: "('r \<Rightarrow> bool) \<Rightarrow> 'r list \<Rightarrow> 'r option" where
  "findFirst P rows = find P rows"

definition update_row :: "('r \<Rightarrow> bool) \<Rightarrow> ('r \<Rightarrow> 'r) \<Rightarrow> 'r list \<Rightarrow> ('r \<times> 'r list) option" where
  "update_row P f rows =
     (case find P rows of
        None \<Rightarrow> None
      | Some r \<Rightarrow> Some (f r, map (\<lambda>x. if P x then f x else x) rows))"

section \<open>Job requisition approval (performance.service.ts)\<close>

text \<open>
  What \<open>getJobRequisitionById\<close> returns: the requisition with its approval workflow and the
  steps of that workflow in ascending level. The other relations it includes (department,
  position, requesting manager, postings, applications) are tables outside this model.
\<close>

record requisitionView =
  view_requisition :: JobRequisition
  view_approvalWorkflow :: "(ApprovalWorkflow \<times> ApprovalStep list) option"

definition getJobRequisitionById :: "string \<Rightarrow> prisma \<Rightarrow> requisitionView option" where
  "getJobRequisitionById id' db =
     (case findFirst (\<lambda>r. req_id r = id') (jobRequisition db) of
        None \<Rightarrow> None
      | Some r \<Rightarrow>
          Some \<lparr>view_requisition = r,
                view_approvalWorkflow =
                  (case findFirst (\<lambda>w. wf_jobRequisitionId w = Some id') (approvalWorkflow db) of
                     None \<Rightarrow> None
                   | Some w \<Rightarrow>
                       Some (w, sort_key step_level
                                  (filter (\<lambda>s. step_workflowId s = wf_id w) (approvalStep db))))\<rparr>)"

text \<open>
  The first query of \<open>approveJobRequisition\<close>: the active workflow of the requisition,
  with \<open>steps\<close> holding at most one step, the pending step of lowest level.
\<close>

definition activeWorkflow :: "string \<Rightarrow> prisma \<Rightarrow> (ApprovalWorkflow \<times> ApprovalStep list) option" where
  "activeWorkflow id' db =
     (case findFirst (\<lambda>w. wf_jobRequisitionId w = Some id' \<and> wf_status w = ''active'')
             (approvalWorkflow db) of
        None \<Rightarrow> None
      | Some w \<Rightarrow>
          Some (w, take 1 (sort_key step_level
                     (filter (\<lambda>s. step_workflowId s = wf_id w \<and> step_status s = ''pending'')
                        (approvalStep db)))))"

text \<open>
  \<open>approveJobRequisition\<close> returns the result (an error thrown, or the requisition read
  back) and the database it leaves. \<open>comments\<close> is \<open>None\<close> when the caller passes
  \<open>undefined\<close>, and then the column keeps its value. \<open>now\<close> is the time that \<open>new Date()\<close>
  reads. The two updates under \<open>Promise.all\<close> are both issued, so one is applied even when
  the other throws.
\<close>

definition approveJobRequisition ::
  "string \<Rightarrow> string \<Rightarrow> string option \<Rightarrow> int \<Rightarrow> prisma \<Rightarrow> (error + requisitionView option) \<times> prisma" where
  "approveJobRequisition id' approverId comments now db =
     (case activeWorkflow id' db of
        None \<Rightarrow> (Inl (Error ''Not authorized to approve at this level''), db)
      | Some (workflow, []) \<Rightarrow> (Inl (Error ''Not authorized to approve at this level''), db)
      | Some (workflow, step0 # _) \<Rightarrow>
          if step_approverId step0 \<noteq> approverId then
            (Inl (Error ''Not authorized to approve at this level''), db)
          else
            (case update_row (\<lambda>s. step_id s = step_id step0)
                    (\<lambda>s. s\<lparr>step_status := ''approved'', step_actionDate := Some now,
                            step_comments := (case comments of None \<Rightarrow> step_comments s
                                              | Some c \<Rightarrow> Some c)\<rparr>)
                    (approvalStep db) of
               None \<Rightarrow> (Inl RecordNotFound, db)
             | Some (_, steps') \<Rightarrow>
                 let db1 = db\<lparr>approvalStep := steps'\<rparr>;
                     nextStep =
                       findFirst (\<lambda>s. True)
                         (sort_key step_level
                            (filter (\<lambda>s. step_workflowId s = wf_id workflow \<and>
                                          step_level s > step_level step0 \<and>
                                          step_status s = ''pending'')
                               (approvalStep db1)))
                 in case nextStep of
                      Some _ \<Rightarrow> (Inr (getJobRequisitionById id' db1), db1)
                    | None \<Rightarrow>
                        let r = update_row (\<lambda>r. req_id r = id')
                                  (\<lambda>r. r\<lparr>req_status := ''approved'', req_approvedAt := Some now,
                                          req_approvedById := Some approverId\<rparr>)
                                  (jobRequisition db1);
                            w = update_row (\<lambda>w. wf_id w = wf_id workflow)
                                  (\<lambda>w. w\<lparr>wf_status := ''completed'', wf_completedAt := Some now\<rparr>)
                                  (approvalWorkflow db1);
                            db2 = db1\<lparr>jobRequisition :=
                                        (case r of None \<Rightarrow> jobRequisition db1 | Some (_, rows) \<Rightarrow> rows),
                                      approvalWorkflow :=
                                        (case w of None \<Rightarrow> approvalWorkflow db1 | Some (_, rows) \<Rightarrow> rows)\<rparr>
                        in if r = None \<or> w = None then (Inl RecordNotFound, db2)
                           else (Inr (getJobRequisitionById id' db2), db2)))"

text \<open>
  The words of the specification: the pending steps of a workflow, and a pending step than
  which no pending step of the workflow has a lower level.
\<close>

definition pendingSteps :: "ApprovalWorkflow \<Rightarrow> prisma \<Rightarrow> ApprovalStep list" where
  "pendingSteps w db =
     filter (\<lambda>s. step_workflowId s = wf_id w \<and> step_status s = ''pending'') (approvalStep db)"

definition lowestPending :: "ApprovalWorkflow \<Rightarrow> prisma \<Rightarrow> ApprovalStep \<Rightarrow> bool" where
  "lowestPending w db s =
     (s \<in> set (pendingSteps w db) \<and> (\<forall>t \<in> set (pendingSteps w db). step_level s \<le> step_level t))"

section \<open>Application stages (performance.service.ts)\<close>

record UpdateApplicationStage =
  data_applicationId :: string
  data_stage :: stage
  data_notes :: "string option"
  data_rejectionReason :: "string option"
  data_feedback :: "string option"

definition updateApplicationStage ::
  "UpdateApplicationStage \<Rightarrow> string \<Rightarrow> int \<Rightarrow> prisma \<Rightarrow> (error + Application) \<times> prisma" where
  "updateApplicationStage data updatedById now db =
     (case update_row (\<lambda>a. app_id a = data_applicationId data)
             (\<lambda>a. a\<lparr>app_stage := data_stage data, app_updatedById := Some updatedById,
                     app_updatedAt := Some now\<rparr>)
             (application db) of
        None \<Rightarrow> (Inl RecordNotFound, db)
      | Some (application', rows) \<Rightarrow>
          (Inr application',
           db\<lparr>application := rows,
              applicationStageHistory :=
                applicationStageHistory db @
                  [\<lparr>hist_applicationId = data_applicationId data, hist_stage = data_stage data,
                    hist_notes = data_notes data, hist_rejectionReason = data_rejectionReason data,
                    hist_feedback = data_feedback data, hist_changedById = updatedById\<rparr>]\<rparr>))"

section \<open>Goal progress from key results (performance.service.ts)\<close>

text \<open>
  \<open>updateGoalProgressFromKeyResults\<close> returns nothing and catches what it throws, so the
  model returns the database it leaves. The loop \<open>forEach\<close> is a fold over the key results
  of the goal with the pair \<open>(totalProgress, totalWeight)\<close>. In this first model the
  arithmetic is exact: it serves the properties of the two paths that round nothing, the
  early return and the guard \<open>totalWeight > 0\<close> with all weights 0.
  \<open>updateGoalProgressFromKeyResults_double\<close> below is the function as the runtime computes
  it.
\<close>

definition updateGoalProgressFromKeyResults :: "string \<Rightarrow> prisma \<Rightarrow> prisma" where
  "updateGoalProgressFromKeyResults goalId db =
     (let keyResults = filter (\<lambda>kr. kr_goal_id kr = goalId) (keyResult db)
      in if length keyResults = 0 then db
         else
           let (totalProgress, totalWeight) =
                 fold (\<lambda>kr (totalProgress, totalWeight).
                         let progress =
                               (if is_binary kr
                                then (if current_value kr \<ge> target_value kr then Fin 100 else Fin 0)
                                else Math_min
                                       (num_mul (num_div (Fin (current_value kr)) (Fin (target_value kr)))
                                          (Fin 100))
                                       (Fin 100))
                         in (num_add totalProgress (num_mul progress (Fin (weight kr))),
                             totalWeight + weight kr))
                   keyResults (Fin 0, 0);
               averageProgress =
                 (if totalWeight > 0 then num_div totalProgress (Fin totalWeight) else Fin 0)
           in case update_row (\<lambda>g. goal_id g = goalId)
                     (\<lambda>g. g\<lparr>progress_percentage := Math_round averageProgress\<rparr>) (goal db) of
                None \<Rightarrow> db
              | Some (_, rows) \<Rightarrow> db\<lparr>goal := rows\<rparr>)"

text \<open>The two sums of the loop of the exact model, in closed form.\<close>

definition resultProgress_spec :: "KeyResult \<Rightarrow> number" where
  "resultProgress_spec kr =
     (if is_binary kr then (if current_value kr \<ge> target_value kr then Fin 100 else Fin 0)
      else Math_min (num_mul (num_div (Fin (current_value kr)) (Fin (target_value kr))) (Fin 100))
             (Fin 100))"

definition num_sum :: "number list \<Rightarrow> number" where
  "num_sum xs = foldr num_add xs (Fin 0)"

text \<open>
  The function in the arithmetic of the runtime. A column value is read as the nearest
  double, and every sum, product and quotient is rounded to the nearest double.
  \<open>Math.round\<close> of a double is an integer that is a double, and is not rounded again.
\<close>

definition updateGoalProgressFromKeyResults_double :: "string \<Rightarrow> prisma \<Rightarrow> prisma" where
  "updateGoalProgressFromKeyResults_double goalId db =
     (let keyResults = filter (\<lambda>kr. kr_goal_id kr = goalId) (keyResult db)
      in if length keyResults = 0 then db
         else
           let (totalProgress, totalWeight) =
                 fold (\<lambda>kr (totalProgress, totalWeight).
                         let progress =
                               (if is_binary kr
                                then (if ge (double (current_value kr)) (double (target_value kr))
                                      then Fin 100 else Fin 0)
                                else Math_min
                                       (dmul (ddiv (double (current_value kr))
                                                (double (target_value kr)))
                                          (Fin 100))
                                       (Fin 100))
                         in (dadd totalProgress (dmul progress (double (weight kr))),
                             dadd totalWeight (double (weight kr))))
                   keyResults (Fin 0, Fin 0);
               averageProgress =
                 (if gt totalWeight (Fin 0) then ddiv totalProgress totalWeight else Fin 0)
           in case update_row (\<lambda>g. goal_id g = goalId)
                     (\<lambda>g. g\<lparr>progress_percentage := Math_round averageProgress\<rparr>) (goal db) of
                None \<Rightarrow> db
              | Some (_, rows) \<Rightarrow> db\<lparr>goal := rows\<rparr>)"

text \<open>
  The words of the specification, in the same arithmetic: the progress of one key result,
  the sum of a list from left to right, and the progress of the goal as the weighted mean,
  rounded to an integer.
\<close>

definition resultProgress_double :: "KeyResult \<Rightarrow> number" where
  "resultProgress_double kr =
     (if is_binary kr
      then (if ge (double (current_value kr)) (double (target_value kr)) then Fin 100 else Fin 0)
      else Math_min (dmul (ddiv (double (current_value kr)) (double (target_value kr))) (Fin 100))
             (Fin 100))"

definition dsum :: "number list \<Rightarrow> number" where
  "dsum xs = foldl dadd (Fin 0) xs"

definition goalProgress_double :: "KeyResult list \<Rightarrow> number" where
  "goalProgress_double krs =
     Math_round
       (ddiv (dsum (map (\<lambda>kr. dmul (resultProgress_double kr) (double (weight kr))) krs))
          (dsum (map (\<lambda>kr. double (weight kr)) krs)))"

section \<open>Example data\<close>

text \<open>
  A requisition with a two-level approval workflow: approver \<open>A\<close> at level 1 and approver
  \<open>B\<close> at level 2. \<open>exampleDb\<close> is the database before any approval, \<open>afterA\<close> the one after the
  approval of \<open>A\<close> at time 1000, and \<open>completedDb\<close> the one after the approval of \<open>B\<close>
  at time 2000.
\<close>

definition stepA :: ApprovalStep where
  "stepA = \<lparr>step_id = ''step-1'', step_workflowId = ''wf-1'', step_approverId = ''A'',
            step_level = 1, step_status = ''pending'', step_required = True,
            step_actionDate = None, step_comments = None\<rparr>"

definition stepB :: ApprovalStep where
  "stepB = \<lparr>step_id = ''step-2'', step_workflowId = ''wf-1'', step_approverId = ''B'',
            step_level = 2, step_status = ''pending'', step_required = True,
            step_actionDate = None, step_comments = None\<rparr>"

definition workflow1 :: ApprovalWorkflow where
  "workflow1 = \<lparr>wf_id = ''wf-1'', wf_jobRequisitionId = Some ''req-1'', wf_offerId = None,
                wf_status = ''active'', wf_completedAt = None\<rparr>"

definition requisition1 :: JobRequisition where
  "requisition1 = \<lparr>req_id = ''req-1'', req_status = ''pending_approval'', req_approvedAt = None,
                   req_approvedById = None\<rparr>"

definition exampleDb :: prisma where
  "exampleDb = \<lparr>approvalWorkflow = [workflow1], approvalStep = [stepA, stepB],
                jobRequisition = [requisition1], application = [],
                applicationStageHistory = [], goal = [], keyResult = []\<rparr>"

definition afterA :: prisma where
  "afterA = exampleDb\<lparr>approvalStep :=
              [stepA\<lparr>step_status := ''approved'', step_actionDate := Some 1000\<rparr>, stepB]\<rparr>"

definition completedDb :: prisma where
  "completedDb =
     exampleDb\<lparr>approvalWorkflow := [workflow1\<lparr>wf_status := ''completed'', wf_completedAt := Some 2000\<rparr>],
               approvalStep := [stepA\<lparr>step_status := ''approved'', step_actionDate := Some 1000\<rparr>,
                                stepB\<lparr>step_status := ''approved'', step_actionDate := Some 2000\<rparr>],
               jobRequisition := [requisition1\<lparr>req_status := ''approved'', req_approvedAt := Some 2000,
                                    req_approvedById := Some ''B''\<rparr>]\<rparr>"

text \<open>
  Three goals. \<open>goal-1\<close> has the two key results of the specification's scenario,
  \<open>goal-2\<close> has no key result, and the only key result of \<open>goal-3\<close> has weight 0.
\<close>

definition goalDb :: prisma where
  "goalDb =
     \<lparr>approvalWorkflow = [], approvalStep = [], jobRequisition = [], application = [],
      applicationStageHistory = [],
      goal = [\<lparr>goal_id = ''goal-1'', progress_percentage = Fin 30\<rparr>,
              \<lparr>goal_id = ''goal-2'', progress_percentage = Fin 70\<rparr>,
              \<lparr>goal_id = ''goal-3'', progress_percentage = Fin 40\<rparr>],
      keyResult =
        [\<lparr>kr_id = ''kr-1'', kr_goal_id = ''goal-1'', target_value = 10, current_value = 10,
          is_binary = False, weight = 50\<rparr>,
         \<lparr>kr_id = ''kr-2'', kr_goal_id = ''goal-1'', target_value = 1, current_value = 0,
          is_binary = True, weight = 50\<rparr>,
         \<lparr>kr_id = ''kr-3'', kr_goal_id = ''goal-3'', target_value = 10, current_value = 10,
          is_binary = False, weight = 0\<rparr>]\<rparr>"

text \<open>
  A goal whose only key result has target 40, current value 23 and weight 1: its progress
  is \<open>57.5\<close> in real arithmetic and \<open>57.49999999999999\<close> in doubles.
\<close>

definition roundingDb :: prisma where
  "roundingDb =
     \<lparr>approvalWorkflow = [], approvalStep = [], jobRequisition = [], application = [],
      applicationStageHistory = [],
      goal = [\<lparr>goal_id = ''goal-4'', progress_percentage = Fin 0\<rparr>],
      keyResult =
        [\<lparr>kr_id = ''kr-4'', kr_goal_id = ''goal-4'', target_value = 40, current_value = 23,
          is_binary = False, weight = 1\<rparr>]\<rparr>"

text \<open>An application in stage \<open>applied\<close>, with the history row of that stage.\<close>

definition appDb :: prisma where
  "appDb =
     \<lparr>approvalWorkflow = [], approvalStep = [], jobRequisition = [],
      application = [\<lparr>app_id = ''app-1'', app_stage = applied, app_updatedById = None,
                      app_updatedAt = None\<rparr>],
      applicationStageHistory =
        [\<lparr>hist_applicationId = ''app-1'', hist_stage = applied, hist_notes = None,
          hist_rejectionReason = None, hist_feedback = None, hist_changedById = ''recruiter-1''\<rparr>],
      goal = [], keyResult = []\<rparr>"

definition hireData :: UpdateApplicationStage where
  "hireData = \<lparr>data_applicationId = ''app-1'', data_stage = hired, data_notes = Some ''fast track'',
               data_rejectionReason = None, data_feedback = None\<rparr>"

section \<open>Properties of the leave request form\<close>

lemma diffDays_nonneg: "0 \<le> \<lceil>real_of_int \<bar>e - s\<bar> / (1000 * 60 * 60 * 24)\<rceil>"
proof -
  have "0 \<le> real_of_int \<bar>e - s\<bar> / (1000 * 60 * 60 * 24)" by simp
  from ceiling_mono [OF this] show ?thesis by simp
qed

lemma half_multiple_int: "\<exists>k::int. real_of_int c + 1 = real_of_int k * 0.5"
  by (rule exI [of _ "2 * c + 2"]) simp

lemma half_multiple_half: "\<exists>k::int. real_of_int c + 1 - 0.5 = real_of_int k * 0.5"
  by (rule exI [of _ "2 * c + 1"]) simp

lemma half_multiple_05: "\<exists>k::int. (0.5::real) = real_of_int k * 0.5"
  by (rule exI [of _ 1]) simp

lemma half_multiple_0: "\<exists>k::int. (0::real) = real_of_int k * 0.5"
  by (rule exI [of _ 0]) simp

lemma calculateDays_fin:
  "calculateDays Date fd = Fin x \<Longrightarrow> 0 \<le> x \<Longrightarrow> \<exists>k::int. x = real_of_int k * 0.5 \<Longrightarrow>
   \<exists>x. calculateDays Date fd = Fin x \<and> 0 \<le> x \<and> (\<exists>k::int. x = real_of_int k * 0.5)"
  by blast

text \<open>
  What \<open>calculateDays\<close> computes on whole dates with the start not after the end: the
  inclusive count of days, less one half when at least one boundary is a half day.
\<close>

lemma ceiling_whole_days:
  "\<lceil>real_of_int \<bar>midnightUTC de - midnightUTC ds\<bar> / (1000 * 60 * 60 * 24)\<rceil> = \<bar>de - ds\<bar>"
proof -
  have "midnightUTC de - midnightUTC ds = msPerDay * (de - ds)"
    by (simp add: midnightUTC_def right_diff_distrib)
  then have "\<bar>midnightUTC de - midnightUTC ds\<bar> = \<bar>msPerDay\<bar> * \<bar>de - ds\<bar>"
    by (simp only: abs_mult)
  then have "\<bar>midnightUTC de - midnightUTC ds\<bar> = msPerDay * \<bar>de - ds\<bar>"
    by (simp add: msPerDay_def)
  moreover have "real_of_int (msPerDay * \<bar>de - ds\<bar>) / (1000 * 60 * 60 * 24) = real_of_int \<bar>de - ds\<bar>"
    by (simp add: msPerDay_def)
  ultimately show ?thesis by (simp only: ceiling_of_int)
qed

lemma calculateDays_whole_dates:
  assumes "Date (startDate fd) = Some (midnightUTC ds)"
    and "Date (endDate fd) = Some (midnightUTC de)"
    and "ds \<le> de"
  shows "calculateDays Date fd =
     Fin (if startTime fd = ''half_day'' \<or> endTime fd = ''half_day''
          then real_of_int (de - ds + 1) - 0.5 else real_of_int (de - ds + 1))"
proof -
  have le: "\<not> midnightUTC ds > midnightUTC de"
    using assms(3) by (simp add: midnightUTC_def msPerDay_def)
  have c: "\<lceil>real_of_int \<bar>midnightUTC de - midnightUTC ds\<bar> / (1000 * 60 * 60 * 24)\<rceil> = de - ds"
    using ceiling_whole_days [of de ds] assms(3) by simp
  show ?thesis using assms(1,2) le
    by (simp only: calculateDays_def c Let_def option.case prod.case if_False) auto
qed

text \<open>
  C3. The days requested are the inclusive count of days minus one half for each boundary
  that is a half day. On the request from 2025-03-10 to 2025-03-12 with both boundaries
  half days the specification gives \<open>3 - 1 = 2\<close> days, and \<open>calculateDays\<close> computes \<open>2.5\<close>: its
  branch for two half days subtracts one half only.
\<close>

theorem calculateDays_both_half_days:
  "calculateDays exampleDate (exampleForm ''2025-03-10'' ''2025-03-12'' ''half_day'' ''half_day'')
     = Fin 2.5 \<and>
   daysRequested_spec (20159 - 20157 + 1) True True = 2"
  by (simp add: calculateDays_def exampleDate_def exampleForm_def midnightUTC_def msPerDay_def
      daysRequested_spec_def)

text \<open>
  C4. For valid start and end dates and any half-day flags, the days requested are at
  least 0 and an integer multiple of 0.5.
\<close>

theorem calculateDays_nonneg_half_multiple:
  assumes "Date (startDate fd) = Some s" and "Date (endDate fd) = Some e"
  shows "\<exists>x. calculateDays Date fd = Fin x \<and> 0 \<le> x \<and> (\<exists>k::int. x = real_of_int k * 0.5)"
proof (cases "s > e")
  case True
  with assms have "calculateDays Date fd = Fin 0" by (simp add: calculateDays_def)
  then show ?thesis by (rule calculateDays_fin) (simp, rule half_multiple_0)
next
  case False
  define c where "c = \<lceil>real_of_int \<bar>e - s\<bar> / (1000 * 60 * 60 * 24)\<rceil>"
  have c0: "0 \<le> c" unfolding c_def by (rule diffDays_nonneg)
  have cases: "calculateDays Date fd = Fin 0.5 \<or> calculateDays Date fd = Fin (real_of_int c + 1 - 0.5)
      \<or> calculateDays Date fd = Fin (real_of_int c + 1)"
    using assms False by (simp add: calculateDays_def Let_def c_def)
  from c0 have r0: "0 \<le> real_of_int c" by simp
  from cases show ?thesis
  proof (elim disjE)
    assume "calculateDays Date fd = Fin 0.5"
    then show ?thesis by (rule calculateDays_fin) (simp, rule half_multiple_05)
  next
    assume h: "calculateDays Date fd = Fin (real_of_int c + 1 - 0.5)"
    have "0 \<le> real_of_int c + 1 - 0.5" using r0 by simp
    with h show ?thesis by (rule calculateDays_fin) (rule half_multiple_half)
  next
    assume h: "calculateDays Date fd = Fin (real_of_int c + 1)"
    have "0 \<le> real_of_int c + 1" using r0 by simp
    with h show ?thesis by (rule calculateDays_fin) (rule half_multiple_int)
  qed
qed

theorem calculateDays_nonneg_half_multiple_witness:
  "exampleDate ''2025-03-10'' = Some (midnightUTC 20157) \<and>
   exampleDate ''2025-03-12'' = Some (midnightUTC 20159) \<and>
   (\<exists>x. calculateDays exampleDate
           (exampleForm ''2025-03-10'' ''2025-03-12'' ''half_day'' ''full_day'') = Fin x
        \<and> 0 \<le> x \<and> (\<exists>k::int. x = real_of_int k * 0.5))"
proof -
  have a: "exampleDate (startDate (exampleForm ''2025-03-10'' ''2025-03-12'' ''half_day'' ''full_day''))
             = Some (midnightUTC 20157)"
    by (simp add: exampleDate_def exampleForm_def)
  have b: "exampleDate (endDate (exampleForm ''2025-03-10'' ''2025-03-12'' ''half_day'' ''full_day''))
             = Some (midnightUTC 20159)"
    by (simp add: exampleDate_def exampleForm_def)
  from calculateDays_nonneg_half_multiple [OF a b] a b show ?thesis
    by (simp add: exampleForm_def)
qed

lemma map_of_update_other:
  "k \<noteq> k' \<Longrightarrow> map_of (AList.update k v al) k' = map_of al k'"
  by (simp add: update_conv')

lemma map_of_update_same: "map_of (AList.update k v al) k = Some v"
  by (simp add: update_conv')

lemma map_of_if: "map_of (if c then x else y) k = (if c then map_of x k else map_of y k)"
  by simp

text \<open>
  C5. When the start date is strictly after the end date, validation produces an error:
  \<open>validateForm\<close> returns false with the message for the end date, \<open>handleSubmit\<close> submits
  no request, and \<open>calculateDays\<close> has set the days requested to 0. (The empty string is
  an Invalid Date.)
\<close>

theorem validateForm_start_after_end:
  assumes "Date [] = None"
    and "Date (startDate fd) = Some s" and "Date (endDate fd) = Some e" and "e < s"
  shows "snd (validateForm Date now str fd selectedPolicy calculatedDays) = False \<and>
         map_of (fst (validateForm Date now str fd selectedPolicy calculatedDays)) ''endDate''
           = Some ''End date must be after start date'' \<and>
         snd (handleSubmit Date now str employeeId fd selectedPolicy calculatedDays) = None \<and>
         calculateDays Date fd = Fin 0"
proof -
  from assms have ne: "startDate fd \<noteq> []" "endDate fd \<noteq> []" by auto
  have g: "gt (getTime (Date (startDate fd))) (getTime (Date (endDate fd)))"
    using assms by (simp add: gt_def getTime_def)
  have m: "map_of (fst (validateForm Date now str fd selectedPolicy calculatedDays)) ''endDate''
           = Some ''End date must be after start date''"
  proof (cases selectedPolicy)
    case None
    then show ?thesis using ne g
      by (simp add: validateForm_def Let_def map_of_if map_of_update_other map_of_update_same
          split del: if_split cong: if_cong)
  next
    case (Some p)
    then show ?thesis using ne g
      by (simp add: validateForm_def Let_def map_of_if map_of_update_other map_of_update_same
          split del: if_split cong: if_cong)
  qed
  then have "fst (validateForm Date now str fd selectedPolicy calculatedDays) \<noteq> []" by auto
  then have v: "snd (validateForm Date now str fd selectedPolicy calculatedDays) = False"
    by (simp add: validateForm_def Let_def split del: if_split)
  then have h: "snd (handleSubmit Date now str employeeId fd selectedPolicy calculatedDays) = None"
    by (cases "validateForm Date now str fd selectedPolicy calculatedDays")
       (simp add: handleSubmit_def)
  have c: "calculateDays Date fd = Fin 0" using assms by (simp add: calculateDays_def)
  from v m h c show ?thesis by simp
qed

theorem validateForm_start_after_end_witness:
  "exampleDate [] = None \<and> midnightUTC 20157 < midnightUTC 20159 \<and>
   validateForm exampleDate (midnightUTC 20000) (\<lambda>n. ''n'')
      (exampleForm ''2025-03-12'' ''2025-03-10'' ''full_day'' ''full_day'') None (Fin 0)
     = ([(''endDate'', ''End date must be after start date'')], False) \<and>
   snd (handleSubmit exampleDate (midnightUTC 20000) (\<lambda>n. ''n'') ''emp-1''
      (exampleForm ''2025-03-12'' ''2025-03-10'' ''full_day'' ''full_day'') None (Fin 0)) = None"
proof -
  let ?fd = "exampleForm ''2025-03-12'' ''2025-03-10'' ''full_day'' ''full_day''"
  have a: "exampleDate [] = None" by (simp add: exampleDate_def)
  have b: "exampleDate (startDate ?fd) = Some (midnightUTC 20159)"
    by (simp add: exampleDate_def exampleForm_def)
  have c: "exampleDate (endDate ?fd) = Some (midnightUTC 20157)"
    by (simp add: exampleDate_def exampleForm_def)
  have d: "midnightUTC 20157 < midnightUTC 20159" by (simp add: midnightUTC_def msPerDay_def)
  have v: "validateForm exampleDate (midnightUTC 20000) (\<lambda>n. ''n'') ?fd None (Fin 0)
     = ([(''endDate'', ''End date must be after start date'')], False)"
    by (simp add: validateForm_def exampleDate_def exampleForm_def gt_def getTime_def
        midnightUTC_def msPerDay_def trim_def isWhiteSpace_def)
  from validateForm_start_after_end [OF a b c d, of "midnightUTC 20000" "\<lambda>n. ''n''" None "Fin 0" "''emp-1''"]
    a d v
  show ?thesis by simp
qed

section \<open>Properties of the queries\<close>

lemma sort_key_head_min:
  assumes "sort_key f xs = y # ys"
  shows "y \<in> set xs \<and> (\<forall>t \<in> set xs. f y \<le> f t)"
proof -
  have s: "set (sort_key f xs) = set xs" by simp
  have "sorted (map f (sort_key f xs))" by (rule sorted_sort_key)
  with assms have "\<forall>z \<in> set ys. f y \<le> f z" by simp
  moreover from s assms have "set xs = insert y (set ys)" by simp
  ultimately show ?thesis by auto
qed

lemma sort_key_Nil_iff: "sort_key f xs = [] \<longleftrightarrow> xs = []"
proof
  assume "sort_key f xs = []"
  then have "length (sort_key f xs) = 0" by simp
  then show "xs = []" by simp
qed simp

lemma sort_key_head_unique:
  assumes "x \<in> set xs" and "\<forall>t \<in> set xs. f x \<le> f t" and "distinct (map f xs)"
  shows "\<exists>ys. sort_key f xs = x # ys"
proof (cases "sort_key f xs")
  case Nil
  with assms(1) show ?thesis by (simp add: sort_key_Nil_iff)
next
  case (Cons y ys)
  from sort_key_head_min [OF Cons] have y: "y \<in> set xs" "\<forall>t \<in> set xs. f y \<le> f t" by auto
  with assms have "f x = f y" by (simp add: order_antisym)
  moreover from assms(3) have "inj_on f (set xs)" by (simp add: distinct_map)
  ultimately have "x = y" using assms(1) y(1) by (auto dest: inj_onD)
  with Cons show ?thesis by simp
qed

lemma find_Some_set: "find P xs = Some x \<Longrightarrow> x \<in> set xs \<and> P x"
  by (induction xs) (auto split: if_splits)

lemma find_None_set: "find P xs = None \<longleftrightarrow> (\<forall>x \<in> set xs. \<not> P x)"
  by (induction xs) auto

lemma update_row_Some:
  assumes "x \<in> set rows" and "P x"
  shows "\<exists>r. r \<in> set rows \<and> P r \<and>
       update_row P f rows = Some (f r, map (\<lambda>x. if P x then f x else x) rows)"
proof -
  from assms have "find P rows \<noteq> None" by (auto simp: find_None_set)
  then obtain r where r: "find P rows = Some r" by auto
  from find_Some_set [OF r] r show ?thesis by (auto simp: update_row_def)
qed

lemma map_unchanged: "(\<forall>x \<in> set rows. \<not> P x) \<Longrightarrow> map (\<lambda>x. if P x then f x else x) rows = rows"
  by (induction rows) auto

lemma update_row_result:
  "update_row P f rows = Some (x, rows') \<Longrightarrow> rows' = map (\<lambda>x. if P x then f x else x) rows"
  by (auto simp: update_row_def split: option.splits)

lemma filter_map_replace:
  "\<not> Q c' \<Longrightarrow> \<not> Q c \<Longrightarrow> filter Q (map (\<lambda>s. if s = c then c' else s) xs) = filter Q xs"
  by (induction xs) auto

lemma filter_map_replace_drop:
  "\<not> P c' \<Longrightarrow> filter P (map (\<lambda>s. if s = c then c' else s) xs) = filter (\<lambda>s. s \<noteq> c \<and> P s) xs"
  by (induction xs) auto

lemma map_by_key:
  assumes "distinct (map k xs)" and "c \<in> set xs"
  shows "map (\<lambda>x. if k x = k c then f x else x) xs = map (\<lambda>x. if x = c then f c else x) xs"
proof (rule map_cong [OF refl])
  fix x assume "x \<in> set xs"
  moreover from assms(1) have "inj_on k (set xs)" by (simp add: distinct_map)
  ultimately have "k x = k c \<longleftrightarrow> x = c" using assms(2) by (auto dest: inj_onD)
  then show "(if k x = k c then f x else x) = (if x = c then f c else x)" by auto
qed

section \<open>Properties of the requisition approval\<close>

lemma activeWorkflow_step:
  assumes "activeWorkflow id' db = Some (w, s0 # rest)"
  shows "lowestPending w db s0 \<and> rest = []"
proof -
  let ?ps = "filter (\<lambda>s. step_workflowId s = wf_id w \<and> step_status s = ''pending'') (approvalStep db)"
  from assms have t: "take 1 (sort_key step_level ?ps) = s0 # rest"
    by (auto simp: activeWorkflow_def split: option.splits)
  then obtain ys where ys: "sort_key step_level ?ps = s0 # ys" and r: "rest = []"
    by (cases "sort_key step_level ?ps") auto
  from sort_key_head_min [OF ys] r show ?thesis
    by (simp add: lowestPending_def pendingSteps_def)
qed

lemma activeWorkflow_current:
  assumes wf: "findFirst (\<lambda>w. wf_jobRequisitionId w = Some id' \<and> wf_status w = ''active'')
              (approvalWorkflow db) = Some w"
    and cur: "lowestPending w db cur"
    and lvls: "distinct (map step_level (filter (\<lambda>s. step_workflowId s = wf_id w) (approvalStep db)))"
  shows "activeWorkflow id' db = Some (w, [cur])"
proof -
  have "pendingSteps w db = filter (\<lambda>s. step_status s = ''pending'')
          (filter (\<lambda>s. step_workflowId s = wf_id w) (approvalStep db))"
    by (simp add: pendingSteps_def)
  with lvls have d: "distinct (map step_level (pendingSteps w db))"
    by (simp only: distinct_map_filter)
  from cur have "cur \<in> set (pendingSteps w db)"
    and "\<forall>t \<in> set (pendingSteps w db). step_level cur \<le> step_level t"
    by (simp_all add: lowestPending_def)
  from sort_key_head_unique [OF this d]
  obtain ys where "sort_key step_level (pendingSteps w db) = cur # ys" by blast
  then have "take 1 (sort_key step_level (pendingSteps w db)) = [cur]" by simp
  with wf show ?thesis by (simp add: activeWorkflow_def pendingSteps_def)
qed



text \<open>
  C1. When the lowest-level pending step of the active workflow of the requisition
  belongs to the acting approver, \<open>approveJobRequisition\<close> succeeds and records the
  decision on that step and on no other. If a pending step of a higher level remains,
  workflows and requisitions are left as they were (the workflow stays active) and the
  lowest of those steps is the one the next approval acts on. Otherwise the workflow
  becomes \<open>completed\<close> and the requisition \<open>approved\<close>. Step ids are unique, the levels
  of the steps of the workflow are distinct, and the requisition is in its table.
\<close>

theorem approve_current_step:
  assumes wf: "findFirst (\<lambda>w. wf_jobRequisitionId w = Some id' \<and> wf_status w = ''active'')
              (approvalWorkflow db) = Some w"
    and cur: "lowestPending w db cur"
    and who: "step_approverId cur = approverId"
    and ids: "distinct (map step_id (approvalStep db))"
    and lvls: "distinct (map step_level (filter (\<lambda>s. step_workflowId s = wf_id w) (approvalStep db)))"
    and req: "r \<in> set (jobRequisition db)" "req_id r = id'"
  shows
    "let cur' = cur\<lparr>step_status := ''approved'', step_actionDate := Some now,
                    step_comments := (case comments of None \<Rightarrow> step_comments cur | Some c \<Rightarrow> Some c)\<rparr>;
         db1 = db\<lparr>approvalStep := map (\<lambda>s. if s = cur then cur' else s) (approvalStep db)\<rparr>;
         db2 = db1\<lparr>jobRequisition :=
                     map (\<lambda>r. if req_id r = id'
                               then r\<lparr>req_status := ''approved'', req_approvedAt := Some now,
                                      req_approvedById := Some approverId\<rparr>
                               else r) (jobRequisition db),
                   approvalWorkflow :=
                     map (\<lambda>x. if wf_id x = wf_id w
                               then x\<lparr>wf_status := ''completed'', wf_completedAt := Some now\<rparr>
                               else x) (approvalWorkflow db)\<rparr>
     in if \<exists>t \<in> set (pendingSteps w db). step_level cur < step_level t
        then approveJobRequisition id' approverId comments now db =
               (Inr (getJobRequisitionById id' db1), db1) \<and>
             (\<exists>nxt. nxt \<in> set (pendingSteps w db) \<and> step_level cur < step_level nxt \<and>
                    lowestPending w db1 nxt \<and> activeWorkflow id' db1 = Some (w, [nxt]))
        else approveJobRequisition id' approverId comments now db =
               (Inr (getJobRequisitionById id' db2), db2)"
proof -
  let ?f = "\<lambda>s. s\<lparr>step_status := ''approved'', step_actionDate := Some now,
                   step_comments := (case comments of None \<Rightarrow> step_comments s | Some c \<Rightarrow> Some c)\<rparr>"
  let ?steps1 = "map (\<lambda>s. if s = cur then ?f cur else s) (approvalStep db)"
  let ?db1 = "db\<lparr>approvalStep := ?steps1\<rparr>"
  let ?Q = "\<lambda>s. step_workflowId s = wf_id w \<and> step_level s > step_level cur \<and>
                step_status s = ''pending''"
  let ?P = "\<lambda>s. step_workflowId s = wf_id w \<and> step_status s = ''pending''"
  have aw: "activeWorkflow id' db = Some (w, [cur])"
    by (rule activeWorkflow_current [OF wf cur lvls])
  from cur have curP: "cur \<in> set (approvalStep db)" "step_workflowId cur = wf_id w"
    "step_status cur = ''pending''"
    and low: "\<forall>t \<in> set (pendingSteps w db). step_level cur \<le> step_level t"
    by (simp_all add: lowestPending_def pendingSteps_def)
  from update_row_Some [of cur "approvalStep db" "\<lambda>s. step_id s = step_id cur" ?f] curP(1)
  obtain r0 where "update_row (\<lambda>s. step_id s = step_id cur) ?f (approvalStep db) =
      Some (?f r0, map (\<lambda>x. if step_id x = step_id cur then ?f x else x) (approvalStep db))"
    by blast
  then have up: "update_row (\<lambda>s. step_id s = step_id cur) ?f (approvalStep db) = Some (?f r0, ?steps1)"
    by (simp only: map_by_key [OF ids curP(1)])
  have q: "filter ?Q ?steps1 = filter ?Q (approvalStep db)"
    by (rule filter_map_replace) simp_all
  have p1: "filter ?P ?steps1 = filter (\<lambda>s. s \<noteq> cur \<and> ?P s) (approvalStep db)"
    by (rule filter_map_replace_drop) simp
  have inj: "inj_on step_level (set (filter (\<lambda>s. step_workflowId s = wf_id w) (approvalStep db)))"
    using lvls by (simp add: distinct_map)
  have pq: "filter (\<lambda>s. s \<noteq> cur \<and> ?P s) (approvalStep db) = filter ?Q (approvalStep db)"
  proof (rule filter_cong [OF refl])
    fix s assume s: "s \<in> set (approvalStep db)"
    show "(s \<noteq> cur \<and> ?P s) = ?Q s"
    proof
      assume a: "s \<noteq> cur \<and> ?P s"
      with s have "s \<in> set (pendingSteps w db)" by (simp add: pendingSteps_def)
      with low have "step_level cur \<le> step_level s" by blast
      moreover have "step_level s \<noteq> step_level cur"
      proof
        assume "step_level s = step_level cur"
        with inj s a curP have "s = cur" by (auto dest: inj_onD)
        with a show False by simp
      qed
      ultimately show "?Q s" using a by simp
    next
      assume "?Q s"
      then show "s \<noteq> cur \<and> ?P s" by auto
    qed
  qed
  have pend1: "pendingSteps w ?db1 = filter ?Q (approvalStep db)"
    by (simp add: pendingSteps_def p1 pq)
  have ex_iff: "(\<exists>t \<in> set (pendingSteps w db). step_level cur < step_level t) \<longleftrightarrow>
                filter ?Q (approvalStep db) \<noteq> []"
    by (auto simp: pendingSteps_def filter_empty_conv)
  show ?thesis
  proof (cases "filter ?Q (approvalStep db) = []")
    case True
    from update_row_Some [OF req(1), of "\<lambda>r. req_id r = id'"] req(2)
    obtain r1 where ur: "update_row (\<lambda>r. req_id r = id')
          (\<lambda>r. r\<lparr>req_status := ''approved'', req_approvedAt := Some now,
                  req_approvedById := Some approverId\<rparr>) (jobRequisition db) =
        Some (r1\<lparr>req_status := ''approved'', req_approvedAt := Some now,
                  req_approvedById := Some approverId\<rparr>,
              map (\<lambda>r. if req_id r = id'
                        then r\<lparr>req_status := ''approved'', req_approvedAt := Some now,
                               req_approvedById := Some approverId\<rparr>
                        else r) (jobRequisition db))"
      by blast
    from wf have "find (\<lambda>w. wf_jobRequisitionId w = Some id' \<and> wf_status w = ''active'')
              (approvalWorkflow db) = Some w"
      by (simp only: findFirst_def)
    then have "w \<in> set (approvalWorkflow db)" by (rule find_Some_set [THEN conjunct1])
    from update_row_Some [OF this, of "\<lambda>x. wf_id x = wf_id w"]
    obtain w1 where uw: "update_row (\<lambda>x. wf_id x = wf_id w)
          (\<lambda>w. w\<lparr>wf_status := ''completed'', wf_completedAt := Some now\<rparr>) (approvalWorkflow db) =
        Some (w1\<lparr>wf_status := ''completed'', wf_completedAt := Some now\<rparr>,
              map (\<lambda>x. if wf_id x = wf_id w
                        then x\<lparr>wf_status := ''completed'', wf_completedAt := Some now\<rparr>
                        else x) (approvalWorkflow db))"
      by blast
    have "approveJobRequisition id' approverId comments now db =
            (Inr (getJobRequisitionById id'
               (?db1\<lparr>jobRequisition :=
                     map (\<lambda>r. if req_id r = id'
                               then r\<lparr>req_status := ''approved'', req_approvedAt := Some now,
                                      req_approvedById := Some approverId\<rparr>
                               else r) (jobRequisition db),
                   approvalWorkflow :=
                     map (\<lambda>x. if wf_id x = wf_id w
                               then x\<lparr>wf_status := ''completed'', wf_completedAt := Some now\<rparr>
                               else x) (approvalWorkflow db)\<rparr>)),
             ?db1\<lparr>jobRequisition :=
                     map (\<lambda>r. if req_id r = id'
                               then r\<lparr>req_status := ''approved'', req_approvedAt := Some now,
                                      req_approvedById := Some approverId\<rparr>
                               else r) (jobRequisition db),
                   approvalWorkflow :=
                     map (\<lambda>x. if wf_id x = wf_id w
                               then x\<lparr>wf_status := ''completed'', wf_completedAt := Some now\<rparr>
                               else x) (approvalWorkflow db)\<rparr>)"
      by (simp add: approveJobRequisition_def aw who up q True ur uw findFirst_def Let_def)
    with True ex_iff show ?thesis by (simp add: Let_def)
  next
    case False
    then obtain nxt rest where sk: "sort_key step_level (filter ?Q (approvalStep db)) = nxt # rest"
      by (cases "sort_key step_level (filter ?Q (approvalStep db))") (auto simp: sort_key_Nil_iff)
    from sort_key_head_min [OF sk] have nx: "nxt \<in> set (filter ?Q (approvalStep db))"
      and nmin: "\<forall>t \<in> set (filter ?Q (approvalStep db)). step_level nxt \<le> step_level t"
      by auto
    have res: "approveJobRequisition id' approverId comments now db =
            (Inr (getJobRequisitionById id' ?db1), ?db1)"
      by (simp add: approveJobRequisition_def aw who up q sk findFirst_def Let_def)
    have n1: "nxt \<in> set (pendingSteps w db)" "step_level cur < step_level nxt"
      using nx by (simp_all add: pendingSteps_def)
    have n2: "lowestPending w ?db1 nxt"
      using nx nmin unfolding lowestPending_def pend1 by blast
    have n3: "activeWorkflow id' ?db1 = Some (w, [nxt])"
      using wf by (simp add: activeWorkflow_def p1 pq sk)
    from res n1 n2 n3 False ex_iff show ?thesis by (simp add: Let_def)
  qed
qed


text \<open>
  The scenario with two levels: the approval of \<open>A\<close> leaves the workflow active with the
  step of \<open>B\<close> as the current one; the approval of \<open>B\<close> completes the workflow and
  approves the requisition.
\<close>

theorem approve_current_step_witness:
  "approveJobRequisition ''req-1'' ''A'' None 1000 exampleDb =
     (Inr (getJobRequisitionById ''req-1'' afterA), afterA) \<and>
   map wf_status (approvalWorkflow afterA) = [''active''] \<and>
   map req_status (jobRequisition afterA) = [''pending_approval''] \<and>
   activeWorkflow ''req-1'' afterA = Some (workflow1, [stepB]) \<and>
   approveJobRequisition ''req-1'' ''B'' None 2000 afterA =
     (Inr (getJobRequisitionById ''req-1'' completedDb), completedDb) \<and>
   map wf_status (approvalWorkflow completedDb) = [''completed''] \<and>
   map req_status (jobRequisition completedDb) = [''approved'']"
proof -
  have wf: "findFirst (\<lambda>w. wf_jobRequisitionId w = Some ''req-1'' \<and> wf_status w = ''active'')
              (approvalWorkflow exampleDb) = Some workflow1"
    by (simp add: findFirst_def exampleDb_def workflow1_def)
  have pA: "pendingSteps workflow1 exampleDb = [stepA, stepB]"
    by (simp add: pendingSteps_def exampleDb_def workflow1_def stepA_def stepB_def)
  have curA: "lowestPending workflow1 exampleDb stepA"
    by (simp add: lowestPending_def pA) (simp add: stepA_def stepB_def)
  have whoA: "step_approverId stepA = ''A''" by (simp add: stepA_def)
  have ids: "distinct (map step_id (approvalStep exampleDb))"
    by (simp add: exampleDb_def stepA_def stepB_def)
  have lvls: "distinct (map step_level
                (filter (\<lambda>s. step_workflowId s = wf_id workflow1) (approvalStep exampleDb)))"
    by (simp add: exampleDb_def stepA_def stepB_def workflow1_def)
  have rq: "requisition1 \<in> set (jobRequisition exampleDb)" "req_id requisition1 = ''req-1''"
    by (simp_all add: exampleDb_def requisition1_def)
  have exA: "\<exists>t \<in> set (pendingSteps workflow1 exampleDb). step_level stepA < step_level t"
    by (simp add: pA) (simp add: stepA_def stepB_def)
  have dbA: "exampleDb\<lparr>approvalStep := map (\<lambda>s. if s = stepA
                then stepA\<lparr>step_status := ''approved'', step_actionDate := Some 1000,
                           step_comments := (case None of None \<Rightarrow> step_comments stepA
                                             | Some c \<Rightarrow> Some c)\<rparr>
                else s) (approvalStep exampleDb)\<rparr> = afterA"
    by (simp add: afterA_def exampleDb_def) (simp add: stepA_def stepB_def)
  from approve_current_step [OF wf curA whoA ids lvls rq, of None 1000] exA
  have a1: "approveJobRequisition ''req-1'' ''A'' None 1000 exampleDb =
     (Inr (getJobRequisitionById ''req-1'' afterA), afterA)"
    by (simp only: Let_def if_True dbA) 
  have wf2: "findFirst (\<lambda>w. wf_jobRequisitionId w = Some ''req-1'' \<and> wf_status w = ''active'')
              (approvalWorkflow afterA) = Some workflow1"
    by (simp add: findFirst_def afterA_def exampleDb_def workflow1_def)
  have pB: "pendingSteps workflow1 afterA = [stepB]"
    by (simp add: pendingSteps_def afterA_def exampleDb_def workflow1_def stepA_def stepB_def)
  have curB: "lowestPending workflow1 afterA stepB"
    by (simp add: lowestPending_def pB)
  have whoB: "step_approverId stepB = ''B''" by (simp add: stepB_def)
  have ids2: "distinct (map step_id (approvalStep afterA))"
    by (simp add: afterA_def exampleDb_def stepA_def stepB_def)
  have lvls2: "distinct (map step_level
                (filter (\<lambda>s. step_workflowId s = wf_id workflow1) (approvalStep afterA)))"
    by (simp add: afterA_def exampleDb_def stepA_def stepB_def workflow1_def)
  have rq2: "requisition1 \<in> set (jobRequisition afterA)"
    by (simp add: afterA_def exampleDb_def)
  have exB: "\<not> (\<exists>t \<in> set (pendingSteps workflow1 afterA). step_level stepB < step_level t)"
    by (simp add: pB)
  have dbB: "afterA\<lparr>approvalStep := map (\<lambda>s. if s = stepB
                then stepB\<lparr>step_status := ''approved'', step_actionDate := Some 2000,
                           step_comments := (case None of None \<Rightarrow> step_comments stepB
                                             | Some c \<Rightarrow> Some c)\<rparr>
                else s) (approvalStep afterA),
              jobRequisition :=
                map (\<lambda>r. if req_id r = ''req-1''
                          then r\<lparr>req_status := ''approved'', req_approvedAt := Some 2000,
                                 req_approvedById := Some ''B''\<rparr>
                          else r) (jobRequisition afterA),
              approvalWorkflow :=
                map (\<lambda>x. if wf_id x = wf_id workflow1
                          then x\<lparr>wf_status := ''completed'', wf_completedAt := Some 2000\<rparr>
                          else x) (approvalWorkflow afterA)\<rparr> = completedDb"
    by (simp add: afterA_def completedDb_def exampleDb_def)
       (simp add: stepA_def stepB_def requisition1_def workflow1_def)
  from approve_current_step [OF wf2 curB whoB ids2 lvls2 rq2 rq(2), of None 2000]
  have a2: "approveJobRequisition ''req-1'' ''B'' None 2000 afterA =
     (Inr (getJobRequisitionById ''req-1'' completedDb), completedDb)"
    by (simp only: Let_def exB if_False dbB)
  have s1: "map wf_status (approvalWorkflow afterA) = [''active'']"
    by (simp add: afterA_def exampleDb_def workflow1_def)
  have s2: "map req_status (jobRequisition afterA) = [''pending_approval'']"
    by (simp add: afterA_def exampleDb_def requisition1_def)
  have s3: "activeWorkflow ''req-1'' afterA = Some (workflow1, [stepB])"
    by (simp add: activeWorkflow_def wf2 pB [unfolded pendingSteps_def])
  have s4: "map wf_status (approvalWorkflow completedDb) = [''completed'']"
    by (simp add: completedDb_def)
  have s5: "map req_status (jobRequisition completedDb) = [''approved'']"
    by (simp add: completedDb_def)
  from a1 a2 s1 s2 s3 s4 s5 show ?thesis by simp
qed


text \<open>
  C2. If the acting user is not the approver of the lowest-level pending step of the
  active workflow of the requisition, \<open>approveJobRequisition\<close> fails with the error
  \<open>Not authorized to approve at this level\<close> and leaves the database as it was.
\<close>

theorem approve_not_current_approver:
  assumes "\<forall>w s. findFirst (\<lambda>w. wf_jobRequisitionId w = Some id' \<and> wf_status w = ''active'')
                    (approvalWorkflow db) = Some w \<longrightarrow>
                 lowestPending w db s \<longrightarrow> step_approverId s \<noteq> approverId"
  shows "approveJobRequisition id' approverId comments now db =
           (Inl (Error ''Not authorized to approve at this level''), db)"
proof (cases "activeWorkflow id' db")
  case None
  then show ?thesis by (simp add: approveJobRequisition_def)
next
  case (Some p)
  obtain w steps where p: "p = (w, steps)" by (cases p)
  from Some p have f: "findFirst (\<lambda>w. wf_jobRequisitionId w = Some id' \<and> wf_status w = ''active'')
                    (approvalWorkflow db) = Some w"
    by (auto simp: activeWorkflow_def split: option.splits)
  show ?thesis
  proof (cases steps)
    case Nil
    with Some p show ?thesis by (simp add: approveJobRequisition_def)
  next
    case (Cons s0 rest)
    with Some p have "lowestPending w db s0" using activeWorkflow_step by blast
    with assms f have "step_approverId s0 \<noteq> approverId" by blast
    with Some p Cons show ?thesis by (simp add: approveJobRequisition_def)
  qed
qed

theorem approve_not_current_approver_witness:
  "map step_approverId (pendingSteps workflow1 exampleDb) = [''A'', ''B''] \<and>
   approveJobRequisition ''req-1'' ''B'' None 1000 exampleDb =
     (Inl (Error ''Not authorized to approve at this level''), exampleDb)"
proof -
  have h: "\<forall>w s. findFirst (\<lambda>w. wf_jobRequisitionId w = Some ''req-1'' \<and> wf_status w = ''active'')
             (approvalWorkflow exampleDb) = Some w \<longrightarrow>
          lowestPending w exampleDb s \<longrightarrow> step_approverId s \<noteq> ''B''"
    by (auto simp: findFirst_def exampleDb_def workflow1_def lowestPending_def pendingSteps_def
        stepA_def stepB_def)
  have p: "map step_approverId (pendingSteps workflow1 exampleDb) = [''A'', ''B'']"
    by (simp add: pendingSteps_def workflow1_def exampleDb_def stepA_def stepB_def)
  from approve_not_current_approver [OF h] p show ?thesis by simp
qed

text \<open>
  Without an active workflow for the requisition the call fails before any write.
\<close>

lemma approve_no_active_workflow_fails:
  assumes "\<forall>w \<in> set (approvalWorkflow db).
             wf_jobRequisitionId w = Some id' \<longrightarrow> wf_status w \<noteq> ''active''"
  shows "approveJobRequisition id' approverId comments now db =
           (Inl (Error ''Not authorized to approve at this level''), db)"
proof -
  from assms have "find (\<lambda>w. wf_jobRequisitionId w = Some id' \<and> wf_status w = ''active'')
                    (approvalWorkflow db) = None"
    by (auto simp: find_None_set)
  then have "activeWorkflow id' db = None" by (simp add: activeWorkflow_def findFirst_def)
  then show ?thesis by (simp add: approveJobRequisition_def)
qed

text \<open>
  An approval changes no step whose workflow is not active.
\<close>

lemma approve_steps_shape:
  "approvalStep (snd (approveJobRequisition id' approverId comments now db)) = approvalStep db \<or>
   (\<exists>w cur. activeWorkflow id' db = Some (w, [cur]) \<and>
      approvalStep (snd (approveJobRequisition id' approverId comments now db)) =
        map (\<lambda>s. if step_id s = step_id cur
                  then s\<lparr>step_status := ''approved'', step_actionDate := Some now,
                         step_comments := (case comments of None \<Rightarrow> step_comments s
                                           | Some c \<Rightarrow> Some c)\<rparr>
                  else s) (approvalStep db))"
proof (cases "activeWorkflow id' db")
  case None
  then show ?thesis by (simp add: approveJobRequisition_def)
next
  case (Some p)
  obtain w steps where p: "p = (w, steps)" by (cases p)
  show ?thesis
  proof (cases steps)
    case Nil
    with Some p show ?thesis by (simp add: approveJobRequisition_def)
  next
    case (Cons cur rest)
    with Some p activeWorkflow_step have rest: "rest = []" by blast
    let ?f = "\<lambda>s. s\<lparr>step_status := ''approved'', step_actionDate := Some now,
                     step_comments := (case comments of None \<Rightarrow> step_comments s
                                       | Some c \<Rightarrow> Some c)\<rparr>"
    show ?thesis
    proof (cases "update_row (\<lambda>s. step_id s = step_id cur) ?f (approvalStep db)")
      case None
      with Some p Cons show ?thesis by (simp add: approveJobRequisition_def)
    next
      case (Some u)
      obtain x steps' where u: "u = (x, steps')" by (cases u)
      from Some have "update_row (\<lambda>s. step_id s = step_id cur) ?f (approvalStep db) = Some (x, steps')"
        by (simp only: u)
      then have st: "steps' = map (\<lambda>s. if step_id s = step_id cur then ?f s else s) (approvalStep db)"
        by (rule update_row_result)
      let ?N = "findFirst (\<lambda>s. True)
                  (sort_key step_level
                     (filter (\<lambda>s. step_workflowId s = wf_id w \<and> step_level s > step_level cur \<and>
                                   step_status s = ''pending'') steps'))"
      have "approvalStep (snd (approveJobRequisition id' approverId comments now db)) = approvalStep db
            \<or> approvalStep (snd (approveJobRequisition id' approverId comments now db)) = steps'"
      proof (cases "step_approverId cur = approverId")
        case False
        with \<open>activeWorkflow id' db = Some p\<close> p Cons show ?thesis
          by (simp add: approveJobRequisition_def)
      next
        case True
        show ?thesis
        proof (cases ?N)
          case None
          with True \<open>activeWorkflow id' db = Some p\<close> p Cons Some u show ?thesis
            by (simp add: approveJobRequisition_def Let_def)
        next
          case (Some n)
          with True \<open>activeWorkflow id' db = Some p\<close> p Cons
            \<open>update_row (\<lambda>s. step_id s = step_id cur) ?f (approvalStep db) = Some u\<close> u
          show ?thesis
            by (simp add: approveJobRequisition_def Let_def)
        qed
      qed
      with st \<open>activeWorkflow id' db = Some p\<close> p Cons rest show ?thesis by auto
    qed
  qed
qed

lemma approve_keeps_steps_of_inactive_workflows:
  assumes ids: "distinct (map step_id (approvalStep db))"
    and i: "i < length (approvalStep db)"
    and inactive: "\<forall>w \<in> set (approvalWorkflow db).
                     wf_id w = step_workflowId (approvalStep db ! i) \<longrightarrow> wf_status w \<noteq> ''active''"
  shows "approvalStep (snd (approveJobRequisition id' approverId comments now db)) ! i =
           approvalStep db ! i"
proof -
  from approve_steps_shape [of id' approverId comments now db]
  show ?thesis
  proof
    assume "approvalStep (snd (approveJobRequisition id' approverId comments now db)) = approvalStep db"
    then show ?thesis by simp
  next
    assume "\<exists>w cur. activeWorkflow id' db = Some (w, [cur]) \<and>
      approvalStep (snd (approveJobRequisition id' approverId comments now db)) =
        map (\<lambda>s. if step_id s = step_id cur
                  then s\<lparr>step_status := ''approved'', step_actionDate := Some now,
                         step_comments := (case comments of None \<Rightarrow> step_comments s
                                           | Some c \<Rightarrow> Some c)\<rparr>
                  else s) (approvalStep db)"
    then obtain w cur where aw: "activeWorkflow id' db = Some (w, [cur])"
      and st: "approvalStep (snd (approveJobRequisition id' approverId comments now db)) =
        map (\<lambda>s. if step_id s = step_id cur
                  then s\<lparr>step_status := ''approved'', step_actionDate := Some now,
                         step_comments := (case comments of None \<Rightarrow> step_comments s
                                           | Some c \<Rightarrow> Some c)\<rparr>
                  else s) (approvalStep db)"
      by blast
    from aw have "find (\<lambda>w. wf_jobRequisitionId w = Some id' \<and> wf_status w = ''active'')
                    (approvalWorkflow db) = Some w"
      by (auto simp: activeWorkflow_def findFirst_def split: option.splits)
    from find_Some_set [OF this] have w: "w \<in> set (approvalWorkflow db)" "wf_status w = ''active''"
      by simp_all
    from aw activeWorkflow_step have "lowestPending w db cur" by blast
    then have c: "cur \<in> set (approvalStep db)" "step_workflowId cur = wf_id w"
      by (simp_all add: lowestPending_def pendingSteps_def)
    from w c inactive have "approvalStep db ! i \<noteq> cur" by auto
    moreover from ids have "inj_on step_id (set (approvalStep db))" by (simp add: distinct_map)
    ultimately have "step_id (approvalStep db ! i) \<noteq> step_id cur"
      using c(1) i by (auto dest: inj_onD)
    with st i show ?thesis by simp
  qed
qed


text \<open>
  C9. If the requisition has no approval workflow in status \<open>active\<close> (for instance
  because its workflow is \<open>completed\<close>), \<open>approveJobRequisition\<close> fails with the
  authorization error and leaves workflows, steps and requisitions as they were. And with
  unique step ids no approval, of any requisition, changes a step of a workflow that is
  not active, such as a completed one.
\<close>

theorem approve_without_active_workflow:
  "((\<forall>w \<in> set (approvalWorkflow db).
       wf_jobRequisitionId w = Some id' \<longrightarrow> wf_status w \<noteq> ''active'') \<longrightarrow>
    approveJobRequisition id' approverId comments now db =
      (Inl (Error ''Not authorized to approve at this level''), db)) \<and>
   (distinct (map step_id (approvalStep db)) \<longrightarrow>
    (\<forall>i < length (approvalStep db).
       (\<forall>w \<in> set (approvalWorkflow db).
          wf_id w = step_workflowId (approvalStep db ! i) \<longrightarrow> wf_status w \<noteq> ''active'') \<longrightarrow>
       approvalStep (snd (approveJobRequisition id' approverId comments now db)) ! i =
         approvalStep db ! i))"
  using approve_no_active_workflow_fails [of db id' approverId comments now]
    approve_keeps_steps_of_inactive_workflows [of db _ id' approverId comments now]
  by blast

theorem approve_without_active_workflow_witness:
  "map wf_status (approvalWorkflow completedDb) = [''completed''] \<and>
   approveJobRequisition ''req-1'' ''B'' None 3000 completedDb =
     (Inl (Error ''Not authorized to approve at this level''), completedDb) \<and>
   approvalStep (snd (approveJobRequisition ''req-1'' ''B'' None 3000 completedDb)) ! 0 =
     approvalStep completedDb ! 0"
proof -
  have h: "\<forall>w \<in> set (approvalWorkflow completedDb).
      wf_jobRequisitionId w = Some ''req-1'' \<longrightarrow> wf_status w \<noteq> ''active''"
    by (simp add: completedDb_def workflow1_def)
  have c: "map wf_status (approvalWorkflow completedDb) = [''completed'']"
    by (simp add: completedDb_def workflow1_def exampleDb_def)
  have d: "distinct (map step_id (approvalStep completedDb))"
    by (simp add: completedDb_def stepA_def stepB_def)
  have l: "0 < length (approvalStep completedDb)"
    by (simp add: completedDb_def)
  have k: "\<forall>w \<in> set (approvalWorkflow completedDb).
          wf_id w = step_workflowId (approvalStep completedDb ! 0) \<longrightarrow> wf_status w \<noteq> ''active''"
    by (simp add: completedDb_def)
  from approve_without_active_workflow [of completedDb "''req-1''" "''B''" None 3000] h c d l k
  show ?thesis by blast
qed

section \<open>Properties of the application stages\<close>

text \<open>
  C8. For an application in the table and any target stage, \<open>updateApplicationStage\<close>
  sets the stage of the application to the given stage, whatever the stage was (no
  transition is checked), and appends exactly one history row with the stage, notes,
  rejection reason, feedback and actor; the rows already in the history stay as they are.
\<close>

theorem updateApplicationStage_appends:
  assumes "a \<in> set (application db)" and "app_id a = data_applicationId data"
  shows "(\<exists>a'. fst (updateApplicationStage data updatedById now db) = Inr a' \<and>
              app_id a' = data_applicationId data \<and> app_stage a' = data_stage data) \<and>
         application (snd (updateApplicationStage data updatedById now db)) =
           map (\<lambda>x. if app_id x = data_applicationId data
                     then x\<lparr>app_stage := data_stage data, app_updatedById := Some updatedById,
                            app_updatedAt := Some now\<rparr>
                     else x) (application db) \<and>
         applicationStageHistory (snd (updateApplicationStage data updatedById now db)) =
           applicationStageHistory db @
             [\<lparr>hist_applicationId = data_applicationId data, hist_stage = data_stage data,
               hist_notes = data_notes data, hist_rejectionReason = data_rejectionReason data,
               hist_feedback = data_feedback data, hist_changedById = updatedById\<rparr>]"
proof -
  let ?f = "\<lambda>a. a\<lparr>app_stage := data_stage data, app_updatedById := Some updatedById,
                     app_updatedAt := Some now\<rparr>"
  from update_row_Some [of a "application db" "\<lambda>a. app_id a = data_applicationId data" ?f] assms
  obtain r where r: "app_id r = data_applicationId data"
    and u: "update_row (\<lambda>a. app_id a = data_applicationId data) ?f (application db) =
              Some (?f r, map (\<lambda>x. if app_id x = data_applicationId data then ?f x else x) (application db))"
    by blast
  show ?thesis using r by (simp add: updateApplicationStage_def u)
qed

theorem updateApplicationStage_appends_witness:
  "fst (updateApplicationStage hireData ''recruiter-2'' 5000 appDb) =
     Inr \<lparr>app_id = ''app-1'', app_stage = hired, app_updatedById = Some ''recruiter-2'',
          app_updatedAt = Some 5000\<rparr> \<and>
   map app_stage (application appDb) = [applied] \<and>
   map app_stage (application (snd (updateApplicationStage hireData ''recruiter-2'' 5000 appDb))) = [hired] \<and>
   applicationStageHistory (snd (updateApplicationStage hireData ''recruiter-2'' 5000 appDb)) =
     applicationStageHistory appDb @
       [\<lparr>hist_applicationId = ''app-1'', hist_stage = hired, hist_notes = Some ''fast track'',
         hist_rejectionReason = None, hist_feedback = None, hist_changedById = ''recruiter-2''\<rparr>]"
proof -
  let ?a = "\<lparr>app_id = ''app-1'', app_stage = applied, app_updatedById = None, app_updatedAt = None\<rparr>"
  have m: "?a \<in> set (application appDb)" by (simp add: appDb_def)
  have i: "app_id ?a = data_applicationId hireData" by (simp add: hireData_def)
  have f: "fst (updateApplicationStage hireData ''recruiter-2'' 5000 appDb) =
     Inr \<lparr>app_id = ''app-1'', app_stage = hired, app_updatedById = Some ''recruiter-2'',
          app_updatedAt = Some 5000\<rparr>"
    by (simp add: updateApplicationStage_def update_row_def appDb_def hireData_def)
  from updateApplicationStage_appends [OF m i, of "''recruiter-2''" 5000] f
  show ?thesis by (simp add: appDb_def hireData_def)
qed

section \<open>Properties of the goal progress\<close>

text \<open>
  C7. For a goal without key results, recomputing the progress leaves the database, and
  so the stored percentage of the goal, unchanged: nothing is written.
\<close>

theorem goal_without_key_results_unchanged:
  assumes "\<forall>kr \<in> set (keyResult db). kr_goal_id kr \<noteq> goalId"
  shows "updateGoalProgressFromKeyResults goalId db = db"
proof -
  from assms have "filter (\<lambda>kr. kr_goal_id kr = goalId) (keyResult db) = []"
    by (simp add: filter_empty_conv)
  then show ?thesis by (simp add: updateGoalProgressFromKeyResults_def)
qed

theorem goal_without_key_results_unchanged_witness:
  "filter (\<lambda>kr. kr_goal_id kr = ''goal-2'') (keyResult goalDb) = [] \<and>
   updateGoalProgressFromKeyResults ''goal-2'' goalDb = goalDb \<and>
   map progress_percentage (goal (updateGoalProgressFromKeyResults ''goal-2'' goalDb))
     = [Fin 30, Fin 70, Fin 40]"
proof -
  have h: "\<forall>kr \<in> set (keyResult goalDb). kr_goal_id kr \<noteq> ''goal-2''"
    by (simp add: goalDb_def)
  from goal_without_key_results_unchanged [OF h] show ?thesis by (simp add: goalDb_def)
qed

text \<open>The loop computes the two sums.\<close>

lemma num_add_assoc: "num_add (num_add a b) c = num_add a (num_add b c)"
  by (cases a; cases b; cases c) simp_all

lemma num_add_zero: "num_add x (Fin 0) = x"
  by (cases x) simp_all

lemma num_add_zero_left: "num_add (Fin 0) x = x"
  by (cases x) simp_all

lemma fold_weighted:
  assumes "\<And>kr tp tw. f kr (tp, tw) = (num_add tp (g kr), tw + w kr)"
  shows "fold f krs (tp, tw) = (num_add tp (num_sum (map g krs)), tw + sum_list (map w krs))"
proof (induction krs arbitrary: tp tw)
  case Nil
  show ?case by (simp add: num_sum_def num_add_zero)
next
  case (Cons kr krs)
  have "fold f (kr # krs) (tp, tw) = fold f krs (num_add tp (g kr), tw + w kr)"
    by (simp add: assms)
  also have "\<dots> = (num_add (num_add tp (g kr)) (num_sum (map g krs)),
                    tw + w kr + sum_list (map w krs))"
    by (rule Cons.IH)
  finally show ?case by (simp add: num_sum_def num_add_assoc add.assoc)
qed

lemma goal_update_row:
  "(case update_row P f (goal db) of None \<Rightarrow> db | Some (_, rows) \<Rightarrow> db\<lparr>goal := rows\<rparr>) =
     db\<lparr>goal := map (\<lambda>x. if P x then f x else x) (goal db)\<rparr>"
proof (cases "find P (goal db)")
  case None
  then have "\<forall>x \<in> set (goal db). \<not> P x" by (simp add: find_None_set)
  then have "map (\<lambda>x. if P x then f x else x) (goal db) = goal db" by (rule map_unchanged)
  with None show ?thesis by (simp add: update_row_def)
next
  case (Some r)
  then show ?thesis by (simp add: update_row_def)
qed

lemma updateGoalProgress_nonempty:
  assumes "filter (\<lambda>kr. kr_goal_id kr = goalId) (keyResult db) \<noteq> []"
  shows "updateGoalProgressFromKeyResults goalId db =
     db\<lparr>goal := map (\<lambda>g. if goal_id g = goalId
                then g\<lparr>progress_percentage :=
                  Math_round
                    (if 0 < sum_list (map weight (filter (\<lambda>kr. kr_goal_id kr = goalId) (keyResult db)))
                     then num_div
                       (num_sum (map (\<lambda>kr. num_mul (resultProgress_spec kr) (Fin (weight kr)))
                          (filter (\<lambda>kr. kr_goal_id kr = goalId) (keyResult db))))
                       (Fin (sum_list (map weight (filter (\<lambda>kr. kr_goal_id kr = goalId) (keyResult db)))))
                     else Fin 0)\<rparr>
                else g) (goal db)\<rparr>"
proof -
  let ?krs = "filter (\<lambda>kr. kr_goal_id kr = goalId) (keyResult db)"
  have f: "fold (\<lambda>kr (totalProgress, totalWeight).
            (num_add totalProgress
               (num_mul
                  (if is_binary kr
                   then (if current_value kr \<ge> target_value kr then Fin 100 else Fin 0)
                   else Math_min
                          (num_mul (num_div (Fin (current_value kr)) (Fin (target_value kr)))
                             (Fin 100))
                          (Fin 100))
                  (Fin (weight kr))),
             totalWeight + weight kr))
     ?krs (Fin 0, 0) =
     (num_sum (map (\<lambda>kr. num_mul (resultProgress_spec kr) (Fin (weight kr))) ?krs),
      sum_list (map weight ?krs))"
    by (subst fold_weighted [where g = "\<lambda>kr. num_mul (resultProgress_spec kr) (Fin (weight kr))"
          and w = weight])
       (simp_all add: resultProgress_spec_def num_add_zero_left)
  from assms have n: "length ?krs \<noteq> 0" by simp
  show ?thesis
    unfolding updateGoalProgressFromKeyResults_def
    by (simp only: Let_def n if_False f prod.case goal_update_row)
qed

text \<open>The doubles of the examples.\<close>

lemmas dd = double_def exponent_def log2floor.simps pow2_def roundTiesToEven_def Let_def

lemma double_0: "double 0 = Fin 0"
  by (simp add: double_def)

lemma double_1: "double 1 = Fin 1"
  by (simp add: dd)

lemma double_10: "double 10 = Fin 10"
  by (simp add: dd)

lemma double_50: "double 50 = Fin 50"
  by (simp add: dd)

lemma double_100: "double 100 = Fin 100"
  by (simp add: dd)

lemma double_5000: "double 5000 = Fin 5000"
  by (simp add: dd)

lemma double_23: "double 23 = Fin 23"
  by (simp add: dd)

lemma double_40: "double 40 = Fin 40"
  by (simp add: dd)

lemma double_23_40: "double (23 / 40) = Fin (2589569785738035 / 4503599627370496)"
  by (simp add: dd)

lemma double_57_times: "double (64739244643450875 / 1125899906842624) = Fin (8092405580431359 / 140737488355328)"
  by (simp add: dd)

lemma double_57_fixed: "double (8092405580431359 / 140737488355328) = Fin (8092405580431359 / 140737488355328)"
  by (simp add: dd)


lemma dops: "dadd (Fin a) (Fin b) = double (a + b)" "dmul (Fin a) (Fin b) = double (a * b)"
  "b \<noteq> 0 \<Longrightarrow> ddiv (Fin a) (Fin b) = double (a / b)"
  by (simp_all add: dadd_def dmul_def ddiv_def)

text \<open>The loop in the arithmetic of doubles computes the two sums from left to right.\<close>

lemma fold_double_sums:
  assumes "\<And>kr tp tw. f kr (tp, tw) = (dadd tp (g kr), dadd tw (w kr))"
  shows "fold f krs (tp, tw) = (foldl dadd tp (map g krs), foldl dadd tw (map w krs))"
proof (induction krs arbitrary: tp tw)
  case Nil
  show ?case by simp
next
  case (Cons kr krs)
  have "fold f (kr # krs) (tp, tw) = fold f krs (dadd tp (g kr), dadd tw (w kr))"
    by (simp add: assms)
  also have "\<dots> = (foldl dadd (dadd tp (g kr)) (map g krs), foldl dadd (dadd tw (w kr)) (map w krs))"
    by (rule Cons.IH)
  finally show ?case by simp
qed

lemma updateGoalProgress_double_nonempty:
  assumes "filter (\<lambda>kr. kr_goal_id kr = goalId) (keyResult db) \<noteq> []"
  shows "updateGoalProgressFromKeyResults_double goalId db =
     db\<lparr>goal := map (\<lambda>g. if goal_id g = goalId
                then g\<lparr>progress_percentage :=
                  Math_round
                    (if gt (dsum (map (\<lambda>kr. double (weight kr))
                                   (filter (\<lambda>kr. kr_goal_id kr = goalId) (keyResult db)))) (Fin 0)
                     then ddiv
                       (dsum (map (\<lambda>kr. dmul (resultProgress_double kr) (double (weight kr)))
                          (filter (\<lambda>kr. kr_goal_id kr = goalId) (keyResult db))))
                       (dsum (map (\<lambda>kr. double (weight kr))
                          (filter (\<lambda>kr. kr_goal_id kr = goalId) (keyResult db))))
                     else Fin 0)\<rparr>
                else g) (goal db)\<rparr>"
proof -
  let ?krs = "filter (\<lambda>kr. kr_goal_id kr = goalId) (keyResult db)"
  have f: "fold (\<lambda>kr (totalProgress, totalWeight).
            (dadd totalProgress
               (dmul
                  (if is_binary kr
                   then (if ge (double (current_value kr)) (double (target_value kr))
                         then Fin 100 else Fin 0)
                   else Math_min
                          (dmul (ddiv (double (current_value kr)) (double (target_value kr)))
                             (Fin 100))
                          (Fin 100))
                  (double (weight kr))),
             dadd totalWeight (double (weight kr))))
     ?krs (Fin 0, Fin 0) =
     (dsum (map (\<lambda>kr. dmul (resultProgress_double kr) (double (weight kr))) ?krs),
      dsum (map (\<lambda>kr. double (weight kr)) ?krs))"
    unfolding dsum_def
    by (subst fold_double_sums [where g = "\<lambda>kr. dmul (resultProgress_double kr) (double (weight kr))"
          and w = "\<lambda>kr. double (weight kr)"])
       (simp_all add: resultProgress_double_def)
  from assms have n: "length ?krs \<noteq> 0" by simp
  show ?thesis
    unfolding updateGoalProgressFromKeyResults_double_def
    by (simp only: Let_def n if_False f prod.case goal_update_row)
qed

text \<open>
  The rounding matters: for target 40, current value 23 and weight 1 the function stores
  57, and the weighted mean in real arithmetic rounds to 58.
\<close>

lemma rounding_example:
  "map progress_percentage (goal (updateGoalProgressFromKeyResults_double ''goal-4'' roundingDb))
     = [Fin 57] \<and>
   round ((23 / 40 * 100 * 1) / (1::real)) = 58"
proof -
  have a: "filter (\<lambda>kr. kr_goal_id kr = ''goal-4'') (keyResult roundingDb) \<noteq> []"
    by (simp add: roundingDb_def)
  have w: "dsum (map (\<lambda>kr. double (weight kr))
               (filter (\<lambda>kr. kr_goal_id kr = ''goal-4'') (keyResult roundingDb))) = Fin 1"
    by (simp add: roundingDb_def dsum_def double_1 dops)
  have p: "dsum (map (\<lambda>kr. dmul (resultProgress_double kr) (double (weight kr)))
               (filter (\<lambda>kr. kr_goal_id kr = ''goal-4'') (keyResult roundingDb)))
           = Fin (8092405580431359 / 140737488355328)"
    by (simp add: roundingDb_def dsum_def resultProgress_double_def dops
        double_1 double_23 double_40 double_23_40 double_57_times double_57_fixed)
  have "map progress_percentage (goal (updateGoalProgressFromKeyResults_double ''goal-4'' roundingDb))
     = [Fin 57]"
    by (simp only: updateGoalProgress_double_nonempty [OF a] w p)
       (simp add: roundingDb_def gt_def dops double_57_fixed)
  moreover have "round ((23 / 40 * 100 * 1) / (1::real)) = 58" by (simp add: round_def)
  ultimately show ?thesis by simp
qed


text \<open>
  C6. For a goal with at least one key result whose weights sum to more than 0,
  recomputing the progress sets the percentage of the goal to
  \<open>round(\<Sum>(resultProgress * weight) / \<Sum>(weight))\<close>, computed in doubles with the sums
  taken in the order of the key results, where \<open>resultProgress\<close> of a binary key result
  is 100 if current \<open>\<ge>\<close> target and 0 otherwise, and of any other key result
  \<open>min(current / target * 100, 100)\<close>; the key results of the scenario give 50.
\<close>

theorem goal_progress_weighted_mean:
  assumes "filter (\<lambda>kr. kr_goal_id kr = goalId) (keyResult db) \<noteq> []"
    and "gt (dsum (map (\<lambda>kr. double (weight kr))
                    (filter (\<lambda>kr. kr_goal_id kr = goalId) (keyResult db)))) (Fin 0)"
  shows "updateGoalProgressFromKeyResults_double goalId db =
     db\<lparr>goal := map (\<lambda>g. if goal_id g = goalId
                then g\<lparr>progress_percentage :=
                       goalProgress_double (filter (\<lambda>kr. kr_goal_id kr = goalId) (keyResult db))\<rparr>
                else g) (goal db)\<rparr>"
  using assms(2)
  by (simp add: updateGoalProgress_double_nonempty [OF assms(1)] goalProgress_double_def)

theorem goal_progress_weighted_mean_witness:
  "filter (\<lambda>kr. kr_goal_id kr = ''goal-1'') (keyResult goalDb) \<noteq> [] \<and>
   gt (dsum (map (\<lambda>kr. double (weight kr))
               (filter (\<lambda>kr. kr_goal_id kr = ''goal-1'') (keyResult goalDb)))) (Fin 0) \<and>
   goalProgress_double (filter (\<lambda>kr. kr_goal_id kr = ''goal-1'') (keyResult goalDb)) = Fin 50 \<and>
   map progress_percentage (goal (updateGoalProgressFromKeyResults_double ''goal-1'' goalDb))
     = [Fin 50, Fin 70, Fin 40]"
proof -
  have a: "filter (\<lambda>kr. kr_goal_id kr = ''goal-1'') (keyResult goalDb) \<noteq> []"
    by (simp add: goalDb_def)
  have w: "dsum (map (\<lambda>kr. double (weight kr))
               (filter (\<lambda>kr. kr_goal_id kr = ''goal-1'') (keyResult goalDb))) = Fin 100"
    by (simp add: goalDb_def dsum_def double_50 dops double_100)
  have b: "gt (dsum (map (\<lambda>kr. double (weight kr))
               (filter (\<lambda>kr. kr_goal_id kr = ''goal-1'') (keyResult goalDb)))) (Fin 0)"
    by (simp add: w gt_def)
  have p: "dsum (map (\<lambda>kr. dmul (resultProgress_double kr) (double (weight kr)))
               (filter (\<lambda>kr. kr_goal_id kr = ''goal-1'') (keyResult goalDb))) = Fin 5000"
    by (simp add: goalDb_def dsum_def resultProgress_double_def ge_def gt_def dops
        double_0 double_1 double_10 double_50 double_100 double_5000)
  have c: "goalProgress_double (filter (\<lambda>kr. kr_goal_id kr = ''goal-1'') (keyResult goalDb)) = Fin 50"
    by (simp only: goalProgress_double_def w p) (simp add: dops double_50)
  have "goal (updateGoalProgressFromKeyResults_double ''goal-1'' goalDb) =
          map (\<lambda>g. if goal_id g = ''goal-1'' then g\<lparr>progress_percentage := Fin 50\<rparr> else g)
            (goal goalDb)"
    by (simp only: goal_progress_weighted_mean [OF a b] c) simp
  then have "map progress_percentage (goal (updateGoalProgressFromKeyResults_double ''goal-1'' goalDb))
     = [Fin 50, Fin 70, Fin 40]"
    by (simp add: goalDb_def)
  with a b c show ?thesis by simp
qed

text \<open>
  Without the condition on the weights the formula fails: for \<open>goal-3\<close>, whose only key
  result has weight 0, the formula is \<open>round(0 / 0)\<close>, not a number, and the function
  stores 0.
\<close>

theorem goal_progress_zero_weight_counterexample:
  "map progress_percentage (goal (updateGoalProgressFromKeyResults_double ''goal-3'' goalDb))
     = [Fin 30, Fin 70, Fin 0] \<and>
   goalProgress_double (filter (\<lambda>kr. kr_goal_id kr = ''goal-3'') (keyResult goalDb)) = NaN"
proof -
  have a: "filter (\<lambda>kr. kr_goal_id kr = ''goal-3'') (keyResult goalDb) \<noteq> []"
    by (simp add: goalDb_def)
  have w: "dsum (map (\<lambda>kr. double (weight kr))
               (filter (\<lambda>kr. kr_goal_id kr = ''goal-3'') (keyResult goalDb))) = Fin 0"
    by (simp add: goalDb_def dsum_def double_0 dops)
  have p: "dsum (map (\<lambda>kr. dmul (resultProgress_double kr) (double (weight kr)))
               (filter (\<lambda>kr. kr_goal_id kr = ''goal-3'') (keyResult goalDb))) = Fin 0"
    by (simp add: goalDb_def dsum_def resultProgress_double_def dops
        double_0 double_1 double_10 double_100)
  have c: "goalProgress_double (filter (\<lambda>kr. kr_goal_id kr = ''goal-3'') (keyResult goalDb)) = NaN"
    by (simp only: goalProgress_double_def w p) (simp add: ddiv_def)
  have "map progress_percentage (goal (updateGoalProgressFromKeyResults_double ''goal-3'' goalDb))
     = [Fin 30, Fin 70, Fin 0]"
    by (simp only: updateGoalProgress_double_nonempty [OF a] w) (simp add: goalDb_def gt_def)
  with c show ?thesis by simp
qed

text \<open>
  C10. For a goal whose key results are not empty and have weights that sum to 0,
  recomputing the progress sets the percentage of the goal to 0, whatever was stored.
\<close>

theorem goal_progress_zero_weights:
  assumes "filter (\<lambda>kr. kr_goal_id kr = goalId) (keyResult db) \<noteq> []"
    and "sum_list (map weight (filter (\<lambda>kr. kr_goal_id kr = goalId) (keyResult db))) = 0"
  shows "updateGoalProgressFromKeyResults goalId db =
     db\<lparr>goal := map (\<lambda>g. if goal_id g = goalId then g\<lparr>progress_percentage := Fin 0\<rparr> else g)
                  (goal db)\<rparr>"
  using assms(2) by (simp add: updateGoalProgress_nonempty [OF assms(1)])


theorem goal_progress_zero_weights_witness:
  "filter (\<lambda>kr. kr_goal_id kr = ''goal-3'') (keyResult goalDb) \<noteq> [] \<and>
   sum_list (map weight (filter (\<lambda>kr. kr_goal_id kr = ''goal-3'') (keyResult goalDb))) = 0 \<and>
   map progress_percentage (goal goalDb) = [Fin 30, Fin 70, Fin 40] \<and>
   map progress_percentage (goal (updateGoalProgressFromKeyResults ''goal-3'' goalDb))
     = [Fin 30, Fin 70, Fin 0]"
proof -
  have a: "filter (\<lambda>kr. kr_goal_id kr = ''goal-3'') (keyResult goalDb) \<noteq> []"
    by (simp add: goalDb_def)
  have b: "sum_list (map weight (filter (\<lambda>kr. kr_goal_id kr = ''goal-3'') (keyResult goalDb))) = 0"
    by (simp add: goalDb_def)
  have "map progress_percentage (goal (updateGoalProgressFromKeyResults ''goal-3'' goalDb))
     = [Fin 30, Fin 70, Fin 0]"
    by (simp only: goal_progress_zero_weights [OF a b]) (simp add: goalDb_def)
  with a b show ?thesis by (simp add: goalDb_def)
qed


text \<open>
  The two properties of the paths that round nothing hold of the function in the
  arithmetic of doubles as well, the second for weights that are not negative.
\<close>

lemma double_without_key_results_unchanged:
  assumes "\<forall>kr \<in> set (keyResult db). kr_goal_id kr \<noteq> goalId"
  shows "updateGoalProgressFromKeyResults_double goalId db = db"
proof -
  from assms have "filter (\<lambda>kr. kr_goal_id kr = goalId) (keyResult db) = []"
    by (simp add: filter_empty_conv)
  then show ?thesis by (simp add: updateGoalProgressFromKeyResults_double_def)
qed

lemma dsum_zeros: "foldl dadd (Fin 0) (map (\<lambda>kr. Fin 0) xs) = Fin 0"
  by (induction xs) (simp_all add: dops double_0)

lemma double_zero_weights:
  assumes "filter (\<lambda>kr. kr_goal_id kr = goalId) (keyResult db) \<noteq> []"
    and "\<forall>kr \<in> set (filter (\<lambda>kr. kr_goal_id kr = goalId) (keyResult db)). 0 \<le> weight kr"
    and "sum_list (map weight (filter (\<lambda>kr. kr_goal_id kr = goalId) (keyResult db))) = 0"
  shows "updateGoalProgressFromKeyResults_double goalId db =
     db\<lparr>goal := map (\<lambda>g. if goal_id g = goalId then g\<lparr>progress_percentage := Fin 0\<rparr> else g)
                  (goal db)\<rparr>"
proof -
  let ?krs = "filter (\<lambda>kr. kr_goal_id kr = goalId) (keyResult db)"
  from assms(2) have "\<forall>x \<in> set (map weight ?krs). 0 \<le> x" by auto
  with assms(3) have "\<forall>x \<in> set (map weight ?krs). x = 0"
    by (simp only: sum_list_nonneg_eq_0_iff)
  then have "map (\<lambda>kr. double (weight kr)) ?krs = map (\<lambda>kr. Fin 0) ?krs"
    by (auto simp: double_0)
  then have "dsum (map (\<lambda>kr. double (weight kr)) ?krs) = Fin 0"
    by (simp only: dsum_def dsum_zeros)
  then show ?thesis
    by (simp add: updateGoalProgress_double_nonempty [OF assms(1)] gt_def)
qed

end
